theory Spec2Isabelle
  imports Complex_Main
begin

section \<open>Data model of the pyrolysis simulator\<close>

text \<open>
  The component \<^verbatim>\<open>PyrolysisSimulator\<close> keeps its state in React hooks. The hooks that
  carry logic are the fields of the record \<open>state\<close> below; an event handler or a timer
  callback is a function from state to state.

  A JavaScript \<^verbatim>\<open>number\<close> is modelled as a real; NaN and the infinities are outside
  the model. The product blend of \<^verbatim>\<open>getProductProbabilities\<close> and
  \<^verbatim>\<open>calculateYields\<close> is computed as the code computes it, in IEEE double arithmetic:
  every literal and every operation is rounded by \<open>fl\<close>, since sums of its shares are
  compared with 1. The heat metrics and the cooling model are bounds and clamps, and their
  arithmetic is exact. Counters that the code only ever increments by one from zero are
  natural numbers.
\<close>

type_synonym number = real

datatype productType = LiquidFuel | Syngas | Biochar

text \<open>
  The interface \<^verbatim>\<open>SpawnedProduct\<close>; the fields \<^verbatim>\<open>id\<close>, \<^verbatim>\<open>type\<close> and \<^verbatim>\<open>x\<close> are renamed
  \<open>pid\<close>, \<open>ptype\<close> and \<open>xpos\<close>.
\<close>

record SpawnedProduct =
  pid :: nat
  ptype :: productType
  xpos :: number
  spawnTime :: nat

record sortingCounts =
  biochar :: nat
  syngas :: nat
  liquidFuel :: nat

text \<open>
  The hooks \<^verbatim>\<open>condensationParticles\<close>, \<^verbatim>\<open>particleIdRef\<close>, \<^verbatim>\<open>touchDragType\<close> and
  \<^verbatim>\<open>touchDragId\<close> only feed the animation and the touch variant of drag and drop; they
  are not part of the record.
\<close>

record state =
  stage :: nat
  plasticRatio :: number
  heatGrid :: "number list list"
  coolingPower :: number
  gasTemp :: number
  isDragging :: bool
  coolingTime :: number
  coolingStarted :: bool
  condensedFuel :: number
  sortingProgress :: sortingCounts
  sortingComplete :: bool
  spawnedProducts :: "SpawnedProduct list"
  losses :: nat
  productQueue :: "productType list"
  totalSpawned :: nat
  spawnIdRef :: nat

text \<open>\<^verbatim>\<open>Array(10).fill(null).map(() => Array(10).fill(0))\<close>\<close>

definition emptyGrid :: "number list list" where
  "emptyGrid = replicate 10 (replicate 10 0)"

definition init :: state where
  "init = \<lparr> stage = 0, plasticRatio = 50, heatGrid = emptyGrid, coolingPower = 50,
            gasTemp = 600, isDragging = False, coolingTime = 0, coolingStarted = False,
            condensedFuel = 0,
            sortingProgress = \<lparr> biochar = 0, syngas = 0, liquidFuel = 0 \<rparr>,
            sortingComplete = False, spawnedProducts = [], losses = 0, productQueue = [],
            totalSpawned = 0, spawnIdRef = 0 \<rparr>"

definition biomassRatio :: "state \<Rightarrow> number" where
  "biomassRatio s = 100 - plasticRatio s"

section \<open>Feedstock input\<close>

text \<open>
  A JavaScript string is its list of UTF-16 code units. \<open>parseInt\<close> follows the
  ECMAScript built-in for an absent radix: leading white space is skipped, a sign is read,
  a prefix \<^verbatim>\<open>0x\<close> or \<^verbatim>\<open>0X\<close> selects radix 16, and the longest run of digits of the radix is
  the value. \<open>None\<close> stands for NaN. The value is the exact integer.
\<close>

type_synonym jsstring = "nat list"

definition codeUnits :: "string \<Rightarrow> jsstring" where
  "codeUnits cs = map of_char cs"

definition isWhiteSpace :: "nat \<Rightarrow> bool" where
  "isWhiteSpace c \<longleftrightarrow>
     c \<in> {9, 10, 11, 12, 13, 32, 160, 5760, 8232, 8233, 8239, 8287, 12288, 65279}
     \<or> (8192 \<le> c \<and> c \<le> 8202)"

definition digitValue :: "nat \<Rightarrow> nat option" where
  "digitValue c =
     (if 48 \<le> c \<and> c \<le> 57 then Some (c - 48)
      else if 97 \<le> c \<and> c \<le> 122 then Some (c - 87)
      else if 65 \<le> c \<and> c \<le> 90 then Some (c - 55)
      else None)"

definition isRadixDigit :: "nat \<Rightarrow> nat \<Rightarrow> bool" where
  "isRadixDigit R c = (case digitValue c of None \<Rightarrow> False | Some d \<Rightarrow> d < R)"

definition stripSign :: "jsstring \<Rightarrow> int \<times> jsstring" where
  "stripSign S =
     (case S of
        [] \<Rightarrow> (1, [])
      | c # rest \<Rightarrow> if c = 45 then (- 1, rest) else if c = 43 then (1, rest) else (1, S))"

definition stripPrefix :: "jsstring \<Rightarrow> nat \<times> jsstring" where
  "stripPrefix S =
     (case S of
        a # b # rest \<Rightarrow> if a = 48 \<and> (b = 120 \<or> b = 88) then (16, rest) else (10, S)
      | _ \<Rightarrow> (10, S))"

definition digitsValue :: "nat \<Rightarrow> jsstring \<Rightarrow> nat" where
  "digitsValue R Z = foldl (\<lambda>acc c. acc * R + the (digitValue c)) 0 Z"

definition parseInt :: "jsstring \<Rightarrow> int option" where
  "parseInt inputString =
     (let (sign, S1) = stripSign (dropWhile isWhiteSpace inputString);
          (R, S2) = stripPrefix S1;
          Z = takeWhile (isRadixDigit R) S2
      in if Z = [] then None else Some (sign * int (digitsValue R Z)))"

text \<open>\<^verbatim>\<open>v || 0\<close> on a number: NaN and zero are falsy.\<close>

definition orZero :: "int option \<Rightarrow> int" where
  "orZero v = (case v of None \<Rightarrow> 0 | Some n \<Rightarrow> if n = 0 then 0 else n)"

text \<open>
  \<^verbatim>\<open>handlePlasticChange(val)\<close>. The argument of the model is \<^verbatim>\<open>val.toString()\<close>: the
  value itself when \<^verbatim>\<open>val\<close> is a string, and the built-in rendering of the number
  otherwise.
\<close>

definition handlePlasticChange :: "jsstring \<Rightarrow> state \<Rightarrow> state" where
  "handlePlasticChange valString s =
     (let clamped = max 0 (min 100 (orZero (parseInt valString)))
      in s\<lparr>plasticRatio := of_int clamped\<rparr>)"

section \<open>Double arithmetic\<close>

text \<open>
  \<open>fl x\<close> is the IEEE 754 binary64 number nearest to \<open>x\<close>, ties going to the even
  significand: \<open>x\<close> is scaled by the quantum of its binade (53 significant bits, the
  quantum of the subnormal numbers at the bottom) and rounded to an integer. Values beyond
  the largest double, which the code would turn into an infinity, are outside the model.
\<close>

definition roundEven :: "real \<Rightarrow> int" where
  "roundEven y =
     (let f = \<lfloor>y\<rfloor>; d = y - of_int f
      in if d < 1 / 2 then f else if 1 / 2 < d then f + 1 else if even f then f else f + 1)"

definition fl :: "real \<Rightarrow> real" where
  "fl x =
     (if x = 0 then 0
      else let e = max (\<lfloor>log 2 \<bar>x\<bar>\<rfloor> - 52) (- 1074);
               q = 2 powr of_int e
           in of_int (roundEven (x / q)) * q)"

text \<open>
  The unit of the error bounds, \<open>2\<close> to the power \<open>-52\<close>, and half the quantum of the
  subnormal numbers.
\<close>

definition u52 :: real where
  "u52 = 1 / 2 ^ 52"

definition tiny :: real where
  "tiny = 2 powr (- 1075)"

section \<open>Product blend\<close>

record probabilities =
  oilProb :: number
  gasProb :: number

text \<open>
  \<^verbatim>\<open>getProductProbabilities\<close>, in double arithmetic. The biomass ratio is the rounded
  difference \<^verbatim>\<open>100 - plasticRatio\<close>.
\<close>

definition getProductProbabilities :: "state \<Rightarrow> probabilities" where
  "getProductProbabilities s =
     (let pFrac = fl (plasticRatio s / 100);
          bFrac = fl (fl (biomassRatio s) / 100)
      in \<lparr> oilProb = fl (fl (pFrac * fl 0.65) + fl (bFrac * fl 0.25)),
           gasProb = fl (fl (pFrac * fl 0.25) + fl (bFrac * fl 0.35)) \<rparr>)"

text \<open>
  The base biochar yield of \<^verbatim>\<open>calculateYields\<close>, in double arithmetic; the figures that
  \<^verbatim>\<open>calculateYields\<close> derives from the base yields for display are not modelled.
\<close>

definition baseBiochar :: "state \<Rightarrow> number" where
  "baseBiochar s =
     (let pFrac = fl (plasticRatio s / 100);
          bFrac = fl (fl (biomassRatio s) / 100)
      in fl (fl (pFrac * fl 0.10) + fl (bFrac * fl 0.40)))"

text \<open>
  \<^verbatim>\<open>baseLiquid\<close>, the local constant of the cooling timer (the expression is that of
  \<^verbatim>\<open>calculateYields\<close>), in the exact arithmetic of the cooling model.
\<close>

definition baseLiquid :: "state \<Rightarrow> number" where
  "baseLiquid s = (plasticRatio s / 100) * 0.65 + (biomassRatio s / 100) * 0.25"

text \<open>
  The roll of the queue generator: the first branch whose bound exceeds the roll. The
  second bound is the rounded sum of the two probabilities.
\<close>

definition classify :: "number \<Rightarrow> number \<Rightarrow> number \<Rightarrow> productType" where
  "classify oil gas roll =
     (if roll < oil then LiquidFuel else if roll < fl (oil + gas) then Syngas else Biochar)"

section \<open>Heat grid\<close>

record heatMetrics =
  averageHeat :: number
  uniformity :: number
  completeness :: number

definition calculateHeatMetrics :: "state \<Rightarrow> heatMetrics" where
  "calculateHeatMetrics s =
     (let flatGrid = concat (heatGrid s);
          totalHeat = foldl (\<lambda>sum val. sum + val) 0 flatGrid;
          avgHeat = totalHeat / 100;
          variance = foldl (\<lambda>sum val. sum + (val - avgHeat) ^ 2) 0 flatGrid / 100;
          stdDev = sqrt variance
      in \<lparr> averageHeat = avgHeat,
           uniformity = max 0 (100 - stdDev),
           completeness = min 100 ((avgHeat / 80) * 100) \<rparr>)"




definition cellsInRange :: "number list list \<Rightarrow> bool" where
  "cellsInRange g = list_all (list_all (\<lambda>v. 0 \<le> v \<and> v \<le> 100)) g"

definition isGrid10 :: "number list list \<Rightarrow> bool" where
  "isGrid10 g \<longleftrightarrow> length g = 10 \<and> list_all (\<lambda>r. length r = 10) g"

text \<open>
  \<^verbatim>\<open>handleCellInteraction(row, col)\<close>. Reading a row beyond the grid gives
  \<^verbatim>\<open>undefined\<close>, and indexing it throws a TypeError; writing beyond the end of a row
  stores NaN there, which the number type of the model excludes.
\<close>

datatype error = TypeError | NaNCell

definition handleCellInteraction :: "nat \<Rightarrow> nat \<Rightarrow> state \<Rightarrow> error + state" where
  "handleCellInteraction row col s =
     (if stage s \<noteq> 2 then Inr s
      else if length (heatGrid s) \<le> row then Inl TypeError
      else if length (heatGrid s ! row) \<le> col then Inl NaNCell
      else Inr (s\<lparr>heatGrid :=
                  (heatGrid s)[row := (heatGrid s ! row)[col := min 100 (heatGrid s ! row ! col + 50)]]\<rparr>))"

section \<open>Sorting\<close>

definition incBin :: "productType \<Rightarrow> sortingCounts \<Rightarrow> sortingCounts" where
  "incBin binType prev =
     (case binType of
        LiquidFuel \<Rightarrow> prev\<lparr>liquidFuel := liquidFuel prev + 1\<rparr>
      | Syngas \<Rightarrow> prev\<lparr>syngas := syngas prev + 1\<rparr>
      | Biochar \<Rightarrow> prev\<lparr>biochar := biochar prev + 1\<rparr>)"

definition binCount :: "productType \<Rightarrow> sortingCounts \<Rightarrow> nat" where
  "binCount binType c =
     (case binType of LiquidFuel \<Rightarrow> liquidFuel c | Syngas \<Rightarrow> syngas c | Biochar \<Rightarrow> biochar c)"

definition handleDrop :: "productType \<Rightarrow> productType \<Rightarrow> nat \<Rightarrow> state \<Rightarrow> state" where
  "handleDrop binType productType productId s =
     (let s1 = (if productType = binType
                then s\<lparr>sortingProgress := incBin binType (sortingProgress s)\<rparr>
                else s\<lparr>losses := losses s + 1\<rparr>)
      in s1\<lparr>spawnedProducts := filter (\<lambda>p. pid p \<noteq> productId) (spawnedProducts s1)\<rparr>)"

definition totalSorted :: "state \<Rightarrow> nat" where
  "totalSorted s =
     biochar (sortingProgress s) + syngas (sortingProgress s) + liquidFuel (sortingProgress s)"

text \<open>The effect that checks completion of the sorting stage.\<close>

definition sortingCompletionEffect :: "state \<Rightarrow> state" where
  "sortingCompletionEffect s =
     (if totalSorted s + losses s \<ge> 15 \<and> totalSpawned s \<ge> 15
      then s\<lparr>sortingComplete := True\<rparr> else s)"

text \<open>
  The effect that fills the queue on entering stage 3; the list holds the values that
  \<^verbatim>\<open>Math.random()\<close> returns in the fifteen rounds of the loop.
\<close>

definition generateQueue :: "number list \<Rightarrow> state \<Rightarrow> state" where
  "generateQueue rolls s =
     (if stage s = 3 \<and> length (productQueue s) = 0
      then let pr = getProductProbabilities s
           in s\<lparr>productQueue := map (classify (oilProb pr) (gasProb pr)) (take 15 rolls)\<rparr>
      else s)"

text \<open>
  The callback of the spawn timer. The queue holds fifteen entries whenever it is not
  empty, so the index is within it; outside it the source would read \<^verbatim>\<open>undefined\<close> as
  the type, and the model leaves the state as it is.
\<close>

definition spawnTick :: "number \<Rightarrow> nat \<Rightarrow> state \<Rightarrow> state" where
  "spawnTick x now s =
     (let prev = totalSpawned s in
      if prev \<ge> 15 then s
      else if length (productQueue s) \<le> prev then s
      else s\<lparr>spawnedProducts := spawnedProducts s @
                 [\<lparr> pid = spawnIdRef s, ptype = productQueue s ! prev, xpos = x, spawnTime = now \<rparr>],
             spawnIdRef := spawnIdRef s + 1,
             totalSpawned := prev + 1\<rparr>)"

section \<open>Cooling\<close>

text \<open>One callback of the 100 ms cooling timer (the particle animation left out).\<close>

definition coolingTick :: "state \<Rightarrow> state" where
  "coolingTick s =
     (let next = coolingTime s + 0.1;
          heatLoss = coolingPower s * 1.5;
          naturalHeat = 2;
          newTemp = gasTemp s - heatLoss + naturalHeat;
          pFrac = plasticRatio s / 100;
          bFrac = biomassRatio s / 100;
          baseLiquid = pFrac * 0.65 + bFrac * 0.25;
          condensationEfficiency = max 0 (1 - \<bar>gasTemp s - 350\<bar> / 400);
          fuelIncrement = baseLiquid * condensationEfficiency * 0.8
      in s\<lparr>coolingTime := (if next \<ge> 15 then 15 else next),
            gasTemp := max 100 (min 900 newTemp),
            condensedFuel := min (condensedFuel s + fuelIncrement) (baseLiquid * 100)\<rparr>)"

section \<open>Reset and the user interface as a transition system\<close>

definition resetGame :: "state \<Rightarrow> state" where
  "resetGame s =
     s\<lparr>stage := 0, plasticRatio := 50, heatGrid := emptyGrid, coolingPower := 50,
       gasTemp := 600, coolingTime := 0, coolingStarted := False, condensedFuel := 0,
       sortingProgress := \<lparr> biochar = 0, syngas = 0, liquidFuel = 0 \<rparr>,
       sortingComplete := False, spawnedProducts := [], losses := 0, productQueue := [],
       totalSpawned := 0, spawnIdRef := 0\<rparr>"

text \<open>
  What can happen to the component: the buttons and inputs of the view that is rendered
  for the current stage, and the callbacks of its effects and timers.
\<close>

datatype event =
    Begin
  | PlasticChange jsstring
  | ToHeating
  | MouseDown nat nat
  | MouseEnter nat nat
  | MouseUp
  | TouchCell nat nat
  | ToSorting
  | GenerateQueue "number list"
  | SpawnTick number nat
  | Drop productType productType nat
  | ToCooling
  | SetCoolingPower number
  | StartCooling
  | CoolingTick
  | ToResults
  | Reset

definition cellRendered :: "state \<Rightarrow> nat \<Rightarrow> nat \<Rightarrow> bool" where
  "cellRendered s row col \<longleftrightarrow>
     stage s = 2 \<and> row < length (heatGrid s) \<and> col < length (heatGrid s ! row)"

text \<open>
  An event is enabled when its element is rendered and not disabled, or when the effect
  that owns its timer has set the timer up.
\<close>

fun enabled :: "state \<Rightarrow> event \<Rightarrow> bool" where
  "enabled s Begin \<longleftrightarrow> stage s = 0"
| "enabled s (PlasticChange v) \<longleftrightarrow> stage s = 1"
| "enabled s ToHeating \<longleftrightarrow> stage s = 1"
| "enabled s (MouseDown row col) \<longleftrightarrow> cellRendered s row col"
| "enabled s (MouseEnter row col) \<longleftrightarrow> cellRendered s row col"
| "enabled s MouseUp \<longleftrightarrow> stage s = 2"
| "enabled s (TouchCell row col) \<longleftrightarrow> cellRendered s row col"
| "enabled s ToSorting \<longleftrightarrow> stage s = 2 \<and> \<not> completeness (calculateHeatMetrics s) < 70"
| "enabled s (GenerateQueue rolls) \<longleftrightarrow>
     stage s = 3 \<and> length (productQueue s) = 0 \<and> length rolls = 15
     \<and> list_all (\<lambda>r. 0 \<le> r \<and> r < 1) rolls"
| "enabled s (SpawnTick x now) \<longleftrightarrow>
     \<not> (stage s \<noteq> 3 \<or> sortingComplete s \<or> length (productQueue s) = 0)
     \<and> \<not> totalSpawned s \<ge> 15"
| "enabled s (Drop binType productType productId) \<longleftrightarrow> stage s = 3"
| "enabled s ToCooling \<longleftrightarrow> stage s = 3 \<and> sortingComplete s"
| "enabled s (SetCoolingPower v) \<longleftrightarrow>
     stage s = 4 \<and> (\<not> coolingStarted s \<or> \<not> coolingTime s \<ge> 15)"
| "enabled s StartCooling \<longleftrightarrow> stage s = 4 \<and> \<not> coolingStarted s"
| "enabled s CoolingTick \<longleftrightarrow> stage s = 4 \<and> coolingStarted s \<and> coolingTime s < 15"
| "enabled s ToResults \<longleftrightarrow> stage s = 4 \<and> coolingStarted s \<and> \<not> coolingTime s < 15"
| "enabled s Reset \<longleftrightarrow> stage s = 5"

definition cellOrSame :: "nat \<Rightarrow> nat \<Rightarrow> state \<Rightarrow> state" where
  "cellOrSame row col s =
     (case handleCellInteraction row col s of Inr s' \<Rightarrow> s' | Inl e \<Rightarrow> s)"

fun fire :: "event \<Rightarrow> state \<Rightarrow> state" where
  "fire Begin s = s\<lparr>stage := 1\<rparr>"
| "fire (PlasticChange v) s = handlePlasticChange v s"
| "fire ToHeating s = s\<lparr>stage := 2\<rparr>"
| "fire (MouseDown row col) s = cellOrSame row col (s\<lparr>isDragging := True\<rparr>)"
| "fire (MouseEnter row col) s =
     (if isDragging s \<or> stage s = 2 then cellOrSame row col s else s)"
| "fire MouseUp s = s\<lparr>isDragging := False\<rparr>"
| "fire (TouchCell row col) s = cellOrSame row col s"
| "fire ToSorting s = s\<lparr>stage := 3\<rparr>"
| "fire (GenerateQueue rolls) s = generateQueue rolls s"
| "fire (SpawnTick x now) s = spawnTick x now s"
| "fire (Drop binType productType productId) s = handleDrop binType productType productId s"
| "fire ToCooling s = s\<lparr>stage := 4\<rparr>"
| "fire (SetCoolingPower v) s = s\<lparr>coolingPower := v\<rparr>"
| "fire StartCooling s = s\<lparr>coolingStarted := True\<rparr>"
| "fire CoolingTick s = coolingTick s"
| "fire ToResults s = s\<lparr>stage := 5\<rparr>"
| "fire Reset s = resetGame s"

text \<open>
  One step: the handler of an enabled event, followed by the completion effect, which
  React runs after the render that the handler causes. An event that is not enabled does
  not occur.
\<close>

definition step :: "state \<Rightarrow> event \<Rightarrow> state" where
  "step s e = (if enabled s e then sortingCompletionEffect (fire e s) else s)"

fun run :: "state \<Rightarrow> event list \<Rightarrow> state" where
  "run s [] = s"
| "run s (e # es) = run (step s e) es"

text \<open>
  A call of \<^verbatim>\<open>handleDrop\<close> that names a product which is on screen at that moment,
  and a trace in which every call does.
\<close>

definition dropOnScreen :: "state \<Rightarrow> event \<Rightarrow> bool" where
  "dropOnScreen s e =
     (case e of
        Drop binType productType productId \<Rightarrow>
          enabled s e \<longrightarrow> productId \<in> set (map pid (spawnedProducts s))
      | _ \<Rightarrow> True)"

fun dropsValid :: "state \<Rightarrow> event list \<Rightarrow> bool" where
  "dropsValid s [] = True"
| "dropsValid s (e # es) = (dropOnScreen s e \<and> dropsValid (step s e) es)"

section \<open>Invariants\<close>

text \<open>
  The invariants of the sorting stage: the products on screen have distinct ids below the
  id counter and account for the difference between the spawned and the dropped ones, and
  the completion flag is set exactly when the completion test holds.
\<close>

definition sortInv :: "state \<Rightarrow> bool" where
  "sortInv s \<longleftrightarrow>
     distinct (map pid (spawnedProducts s))
     \<and> list_all (\<lambda>p. pid p < spawnIdRef s) (spawnedProducts s)
     \<and> totalSorted s + losses s + length (spawnedProducts s) = totalSpawned s
     \<and> totalSpawned s \<le> 15"

definition complInv :: "state \<Rightarrow> bool" where
  "complInv s \<longleftrightarrow>
     (sortingComplete s \<longleftrightarrow> 15 \<le> totalSorted s + losses s \<and> 15 \<le> totalSpawned s)"

text \<open>
  The invariant behind the bound on the condensed fuel: the plastic ratio is in its range,
  the fuel is between zero and its cap, and it is zero while the ratio can still change.
\<close>

definition fuelInv :: "state \<Rightarrow> bool" where
  "fuelInv s \<longleftrightarrow>
     0 \<le> plasticRatio s \<and> plasticRatio s \<le> 100
     \<and> 0 \<le> condensedFuel s \<and> condensedFuel s \<le> baseLiquid s * 100
     \<and> (stage s \<le> 1 \<longrightarrow> condensedFuel s = 0)"

text \<open>The queue of the sorting stage is empty or holds its fifteen products.\<close>

definition queueInv :: "state \<Rightarrow> bool" where
  "queueInv s \<longleftrightarrow> productQueue s = [] \<or> length (productQueue s) = 15"

section \<open>Sample states and traces\<close>


definition twoProducts :: state where
  "twoProducts = init\<lparr>spawnedProducts :=
     [\<lparr> pid = 0, ptype = Syngas, xpos = 10, spawnTime = 0 \<rparr>,
      \<lparr> pid = 1, ptype = Biochar, xpos = 20, spawnTime = 1 \<rparr>]\<rparr>"

definition ratioSix :: state where
  "ratioSix = init\<lparr>plasticRatio := 6\<rparr>"

definition heating :: state where
  "heating = init\<lparr>stage := 2\<rparr>"

definition cooling :: state where
  "cooling = init\<lparr>stage := 4, coolingStarted := True\<rparr>"

definition results :: state where
  "results = init\<lparr>stage := 5\<rparr>"

definition threeTouches :: "event list" where
  "threeTouches = [Begin, ToHeating, TouchCell 0 0, TouchCell 0 0, TouchCell 0 0]"

text \<open>
  A run of the component from its initial state: the cells of six rows are touched twice
  each, the sorting stage is entered, the queue is drawn from rolls of one half, one
  product is spawned and dropped on the bin of its type.
\<close>

definition touchRow :: "nat \<Rightarrow> event list" where
  "touchRow r = concat (map (\<lambda>c. [TouchCell r c, TouchCell r c]) [0, 1, 2, 3, 4, 5, 6, 7, 8, 9])"

definition heatingTrace :: "event list" where
  "heatingTrace = [Begin, ToHeating] @ concat (map touchRow [0, 1, 2, 3, 4, 5])"

definition halfRolls :: "number list" where
  "halfRolls = replicate 15 0.5"

definition sortingTrace :: "event list" where
  "sortingTrace = heatingTrace
     @ [ToSorting, GenerateQueue halfRolls, SpawnTick 10 0, Drop Syngas Syngas 0]"

definition coldRow :: "number list" where
  "coldRow = [0, 0, 0, 0, 0, 0, 0, 0, 0, 0]"

definition hotRow :: "number list" where
  "hotRow = [100, 100, 100, 100, 100, 100, 100, 100, 100, 100]"

definition heated :: state where
  "heated = init\<lparr>stage := 2,
     heatGrid := [hotRow, hotRow, hotRow, hotRow, hotRow, hotRow, coldRow, coldRow, coldRow, coldRow]\<rparr>"

definition sortingOne :: state where
  "sortingOne = heated\<lparr>stage := 3, productQueue := replicate 15 Syngas,
     spawnedProducts := [\<lparr> pid = 0, ptype = Syngas, xpos = 10, spawnTime = 0 \<rparr>],
     spawnIdRef := 1, totalSpawned := 1\<rparr>"

section \<open>The product blend\<close>

text \<open>The rounding error of \<open>fl\<close>, and its evaluation in a known binade.\<close>

lemma roundEven_error: "\<bar>of_int (roundEven y) - y\<bar> \<le> 1 / 2"
proof -
  have "of_int \<lfloor>y\<rfloor> \<le> y" "y < of_int \<lfloor>y\<rfloor> + 1" by linarith+
  then show ?thesis by (auto simp: roundEven_def Let_def)
qed

lemma fl_quantum:
  assumes "x \<noteq> 0"
  defines "q \<equiv> 2 powr of_int (max (\<lfloor>log 2 \<bar>x\<bar>\<rfloor> - 52) (- 1074))"
  shows "fl x = of_int (roundEven (x / q)) * q" and "0 < q" and "\<bar>fl x - x\<bar> \<le> q / 2"
proof -
  show eq: "fl x = of_int (roundEven (x / q)) * q"
    using assms(1) by (simp add: fl_def q_def Let_def)
  show pos: "0 < q" by (simp add: q_def)
  have "fl x - x = (of_int (roundEven (x / q)) - x / q) * q"
    using pos by (simp add: eq field_simps)
  then have "\<bar>fl x - x\<bar> = \<bar>of_int (roundEven (x / q)) - x / q\<bar> * q"
    using pos by (simp add: abs_mult)
  also have "\<dots> \<le> 1 / 2 * q"
    using roundEven_error [of "x / q"] pos by (intro mult_right_mono) simp_all
  finally show "\<bar>fl x - x\<bar> \<le> q / 2" by simp
qed

lemma powr_neg_nat: "(2::real) powr (- real m) = 1 / 2 ^ m"
  by (simp add: powr_minus powr_realpow divide_inverse)

lemma half_powr: "(2::real) powr a / 2 = 2 powr (a - 1)"
  by (simp add: powr_diff)

lemma tiny_le: "tiny \<le> 1 / 2 ^ 52"
proof -
  have "(2::real) powr (- 1075) \<le> 2 powr (- real 52)"
    by (rule powr_mono) simp_all
  then show ?thesis
    unfolding tiny_def powr_neg_nat .
qed

lemma fl_error: "\<bar>fl x - x\<bar> \<le> max (\<bar>x\<bar> / 2 ^ 53) tiny"
proof (cases "x = 0")
  case True
  then have "fl x - x = 0" by (simp add: fl_def)
  moreover have "0 \<le> \<bar>x\<bar> / 2 ^ 53" by simp
  ultimately show ?thesis by (simp only: abs_zero le_max_iff_disj) simp
next
  case False
  let ?k = "\<lfloor>log 2 \<bar>x\<bar>\<rfloor>"
  let ?e = "max (?k - 52) (- 1074)"
  have half: "\<bar>fl x - x\<bar> \<le> 2 powr of_int ?e / 2"
    by (rule fl_quantum(3) [OF False])
  have pos: "0 < \<bar>x\<bar>" using False by simp
  have "2 powr of_int ?k \<le> \<bar>x\<bar> \<and> \<bar>x\<bar> < 2 powr of_int (?k + 1)"
    by (rule floor_log_eq_powr_iff [OF pos, THEN iffD1]) simp_all
  then have low: "2 powr of_int ?k \<le> \<bar>x\<bar>" ..
  show ?thesis
  proof (cases "- 1074 \<le> ?k - 52")
    case True
    then have e: "?e = ?k - 52" by (rule max_absorb1)
    have "(2::real) powr of_int (?k - 52) / 2 = 2 powr (of_int ?k + (- 53))"
      unfolding half_powr by simp
    also have "\<dots> = 2 powr of_int ?k * 2 powr (- real 53)"
      unfolding powr_add by simp
    also have "\<dots> = 2 powr of_int ?k * (1 / 2 ^ 53)"
      unfolding powr_neg_nat ..
    also have "\<dots> \<le> \<bar>x\<bar> * (1 / 2 ^ 53)"
      using low by (rule mult_right_mono) simp
    finally have "\<bar>fl x - x\<bar> \<le> \<bar>x\<bar> / 2 ^ 53"
      using half unfolding e by simp
    then show ?thesis by (rule max.coboundedI1)
  next
    case False
    then have "?k - 52 \<le> - 1074" by linarith
    then have e: "?e = - 1074" by (rule max_absorb2)
    have "(2::real) powr of_int (- 1074) / 2 = tiny"
      unfolding half_powr tiny_def by simp
    then have "\<bar>fl x - x\<bar> \<le> tiny"
      using half unfolding e by (simp only:)
    then show ?thesis by (rule max.coboundedI2)
  qed
qed

lemma u52_bounds: "0 < u52" "u52 \<le> 1 / 1000"
  by (simp_all add: u52_def)

lemma u52_le: "16 * u52 \<le> 1 / 2 ^ 48" "64 * u52 \<le> 1 / 2 ^ 46"
  by (simp_all add: u52_def)

lemma fl_close_scaled:
  assumes "\<bar>x\<bar> \<le> 2 * c" and "1 \<le> c"
  shows "\<bar>fl x - x\<bar> \<le> c * u52"
proof -
  have "\<bar>x\<bar> / 2 ^ 53 = \<bar>x\<bar> * (u52 / 2)"
    by (simp add: u52_def)
  also have "\<dots> \<le> (2 * c) * (u52 / 2)"
    using assms(1) u52_bounds(1) by (intro mult_right_mono) simp_all
  finally have main: "\<bar>x\<bar> / 2 ^ 53 \<le> c * u52" by simp
  have "tiny \<le> u52" using tiny_le by (simp add: u52_def)
  moreover have "1 * u52 \<le> c * u52"
    using assms(2) u52_bounds(1) by (intro mult_right_mono) simp_all
  ultimately have "tiny \<le> c * u52" by simp
  with main have "max (\<bar>x\<bar> / 2 ^ 53) tiny \<le> c * u52"
    by (rule max.boundedI)
  with fl_error [of x] show ?thesis by (rule order_trans)
qed

lemma fl_close: "\<bar>x\<bar> \<le> 2 \<Longrightarrow> \<bar>fl x - x\<bar> \<le> u52"
  using fl_close_scaled [of x 1] by simp

lemma fl_close_4: "\<bar>x\<bar> \<le> 4 \<Longrightarrow> \<bar>fl x - x\<bar> \<le> 2 * u52"
  using fl_close_scaled [of x 2] by simp

lemma fl_close_128: "\<bar>x\<bar> \<le> 128 \<Longrightarrow> \<bar>fl x - x\<bar> \<le> 64 * u52"
  using fl_close_scaled [of x 64] by simp

lemma fl_scaled:
  assumes "0 < x" and "\<lfloor>log 2 x\<rfloor> = k" and "- 1022 \<le> k" and "k \<le> 52" and "m = nat (52 - k)"
  shows "fl x = of_int (roundEven (x * 2 ^ m)) / 2 ^ m"
proof -
  have e: "max (\<lfloor>log 2 \<bar>x\<bar>\<rfloor> - 52) (- 1074) = - int m"
    using assms by simp
  have x: "x \<noteq> 0" using assms(1) by simp
  have q: "(2::real) powr of_int (- int m) = 1 / 2 ^ m"
    using powr_neg_nat [of m] by simp
  have "fl x = of_int (roundEven (x / (1 / 2 ^ m))) * (1 / 2 ^ m)"
    unfolding fl_def Let_def e q using x by (simp only: if_False)
  then show ?thesis by (simp only: divide_divide_eq_right div_by_1 mult_1 times_divide_eq_right mult_1_right)
qed

lemma fl_below_one:
  assumes "1 \<le> x * 2 ^ n" and "x * 2 ^ n < 2" and "n \<le> 1022"
  shows "fl x = of_int (roundEven (x * 2 ^ (n + 52))) / 2 ^ (n + 52)"
proof -
  have pos: "0 < x"
  proof (rule ccontr)
    assume "\<not> 0 < x"
    then have "x * 2 ^ n \<le> 0" by (simp add: mult_le_0_iff)
    with assms(1) show False by simp
  qed
  have p': "(2::real) powr (1 - real n) = 2 / 2 ^ n"
    by (simp add: powr_diff powr_realpow)
  have "2 powr of_int (- int n) \<le> x \<and> x < 2 powr of_int (- int n + 1)"
    using assms(1,2) by (simp add: powr_neg_nat p' field_simps)
  then have k: "\<lfloor>log 2 x\<rfloor> = - int n"
    using pos floor_log_eq_powr_iff [of x 2 "- int n"] by simp
  show ?thesis
    using pos k by (rule fl_scaled) (use assms(3) in simp_all)
qed

lemma fl_above_one:
  assumes "2 ^ n \<le> x" and "x < 2 * 2 ^ n" and "n \<le> 52"
  shows "fl x = of_int (roundEven (x * 2 ^ (52 - n))) / 2 ^ (52 - n)"
proof -
  have "(0::real) < 2 ^ n" by simp
  then have pos: "0 < x" using assms(1) by (rule less_le_trans)
  have "2 powr of_int (int n) \<le> x \<and> x < 2 powr of_int (int n + 1)"
    using assms(1,2) by (simp add: powr_add powr_realpow)
  then have k: "\<lfloor>log 2 x\<rfloor> = int n"
    using pos floor_log_eq_powr_iff [of x 2 "int n"] by simp
  show ?thesis
    using pos k by (rule fl_scaled) (use assms(3) in simp_all)
qed

text \<open>How far the rounded shares are from the exact weighted averages.\<close>

lemma mult_close:
  fixes a b a0 b0 :: real
  assumes "\<bar>a - a0\<bar> \<le> ea" and "\<bar>b - b0\<bar> \<le> eb" and "\<bar>a0\<bar> \<le> 1" and "\<bar>b\<bar> \<le> 2"
  shows "\<bar>a * b - a0 * b0\<bar> \<le> 2 * ea + eb"
proof -
  have "a * b - a0 * b0 = (a - a0) * b + a0 * (b - b0)"
    by (simp add: algebra_simps)
  moreover have "\<bar>(a - a0) * b + a0 * (b - b0)\<bar> \<le> \<bar>(a - a0) * b\<bar> + \<bar>a0 * (b - b0)\<bar>"
    by (rule abs_triangle_ineq)
  ultimately have "\<bar>a * b - a0 * b0\<bar> \<le> \<bar>a - a0\<bar> * \<bar>b\<bar> + \<bar>a0\<bar> * \<bar>b - b0\<bar>"
    by (simp only: abs_mult)
  moreover have "\<bar>a - a0\<bar> * \<bar>b\<bar> \<le> ea * 2"
    using assms(1,4) by (intro mult_mono) (auto intro: order_trans [OF abs_ge_zero])
  moreover have "\<bar>a0\<bar> * \<bar>b - b0\<bar> \<le> 1 * eb"
    using assms(2,3) by (intro mult_mono) (auto intro: order_trans [OF abs_ge_zero])
  ultimately show ?thesis by linarith
qed

lemma pFrac_close:
  assumes "0 \<le> p" and "p \<le> 100"
  shows "\<bar>fl (p / 100) - p / 100\<bar> \<le> 2 * u52"
proof -
  have "\<bar>p / 100\<bar> \<le> 2" using assms by simp
  then have "\<bar>fl (p / 100) - p / 100\<bar> \<le> u52" by (rule fl_close)
  then show ?thesis using u52_bounds by linarith
qed

lemma bFrac_close:
  assumes "0 \<le> b" and "b \<le> 100"
  shows "\<bar>fl (fl b / 100) - b / 100\<bar> \<le> 2 * u52"
proof -
  have "\<bar>b\<bar> \<le> 128" using assms by simp
  then have b: "\<bar>fl b - b\<bar> \<le> 64 * u52" by (rule fl_close_128)
  with assms u52_bounds have "\<bar>fl b\<bar> \<le> 200" by linarith
  then have "\<bar>fl b / 100\<bar> \<le> 2" by simp
  then have r: "\<bar>fl (fl b / 100) - fl b / 100\<bar> \<le> u52" by (rule fl_close)
  have "\<bar>fl b / 100 - b / 100\<bar> = \<bar>fl b - b\<bar> / 100"
    by (simp add: diff_divide_distrib [symmetric])
  with b have "\<bar>fl b / 100 - b / 100\<bar> \<le> 64 * u52 / 100" by simp
  with r u52_bounds show ?thesis by linarith
qed

lemma share_close:
  assumes pF: "\<bar>pF - x\<bar> \<le> 2 * u52" and bF: "\<bar>bF - y\<bar> \<le> 2 * u52"
    and x: "0 \<le> x" "x \<le> 1" and y: "0 \<le> y" "y \<le> 1"
    and c1: "0 \<le> c1" "c1 \<le> 1" and c2: "0 \<le> c2" "c2 \<le> 1"
  shows "\<bar>fl (fl (pF * fl c1) + fl (bF * fl c2)) - (x * c1 + y * c2)\<bar> \<le> 16 * u52"
proof -
  have piece: "\<bar>fl (a * fl c) - z * c\<bar> \<le> 6 * u52 \<and> 0 \<le> z * c \<and> z * c \<le> 1"
    if a: "\<bar>a - z\<bar> \<le> 2 * u52" and z: "0 \<le> z" "z \<le> 1" and c: "0 \<le> c" "c \<le> 1"
    for a z c :: real
  proof -
    have "\<bar>c\<bar> \<le> 2" using c by simp
    then have fc: "\<bar>fl c - c\<bar> \<le> u52" by (rule fl_close)
    with c u52_bounds have "\<bar>fl c\<bar> \<le> 2" by linarith
    moreover have "\<bar>z\<bar> \<le> 1" using z by simp
    ultimately have m: "\<bar>a * fl c - z * c\<bar> \<le> 2 * (2 * u52) + u52"
      using a fc by (intro mult_close)
    have p: "0 \<le> z * c" using z(1) c(1) by (rule mult_nonneg_nonneg)
    have q: "z * c \<le> 1" using z c by (intro mult_le_one)
    from m p q u52_bounds have "\<bar>a * fl c\<bar> \<le> 2" by linarith
    then have "\<bar>fl (a * fl c) - a * fl c\<bar> \<le> u52" by (rule fl_close)
    with m p q show ?thesis by linarith
  qed
  note t1 = piece [OF pF x c1] and t2 = piece [OF bF y c2]
  from t1 t2 u52_bounds have "\<bar>fl (pF * fl c1) + fl (bF * fl c2)\<bar> \<le> 4" by linarith
  then have "\<bar>fl (fl (pF * fl c1) + fl (bF * fl c2)) - (fl (pF * fl c1) + fl (bF * fl c2))\<bar>
               \<le> 2 * u52"
    by (rule fl_close_4)
  with t1 t2 show ?thesis by linarith
qed

lemma oilProb_unfold:
  "oilProb (getProductProbabilities s)
     = fl (fl (fl (plasticRatio s / 100) * fl 0.65) + fl (fl (fl (biomassRatio s) / 100) * fl 0.25))"
  by (simp add: getProductProbabilities_def Let_def)

lemma gasProb_unfold:
  "gasProb (getProductProbabilities s)
     = fl (fl (fl (plasticRatio s / 100) * fl 0.25) + fl (fl (fl (biomassRatio s) / 100) * fl 0.35))"
  by (simp add: getProductProbabilities_def Let_def)

lemma baseBiochar_unfold:
  "baseBiochar s
     = fl (fl (fl (plasticRatio s / 100) * fl 0.10) + fl (fl (fl (biomassRatio s) / 100) * fl 0.40))"
  by (simp add: baseBiochar_def Let_def)

lemma shares_close:
  assumes "0 \<le> plasticRatio s" and "plasticRatio s \<le> 100"
  shows "\<bar>oilProb (getProductProbabilities s)
           - ((plasticRatio s / 100) * 0.65 + (biomassRatio s / 100) * 0.25)\<bar> \<le> 16 * u52"
    and "\<bar>gasProb (getProductProbabilities s)
           - ((plasticRatio s / 100) * 0.25 + (biomassRatio s / 100) * 0.35)\<bar> \<le> 16 * u52"
    and "\<bar>baseBiochar s
           - ((plasticRatio s / 100) * 0.10 + (biomassRatio s / 100) * 0.40)\<bar> \<le> 16 * u52"
proof -
  have b: "0 \<le> biomassRatio s" "biomassRatio s \<le> 100"
    using assms by (simp_all add: biomassRatio_def)
  note pF = pFrac_close [OF assms] and bF = bFrac_close [OF b]
  have x: "0 \<le> plasticRatio s / 100" "plasticRatio s / 100 \<le> 1"
    using assms by simp_all
  have y: "0 \<le> biomassRatio s / 100" "biomassRatio s / 100 \<le> 1"
    using b by simp_all
  show "\<bar>oilProb (getProductProbabilities s)
           - ((plasticRatio s / 100) * 0.65 + (biomassRatio s / 100) * 0.25)\<bar> \<le> 16 * u52"
    unfolding oilProb_unfold by (rule share_close [OF pF bF x y]) simp_all
  show "\<bar>gasProb (getProductProbabilities s)
           - ((plasticRatio s / 100) * 0.25 + (biomassRatio s / 100) * 0.35)\<bar> \<le> 16 * u52"
    unfolding gasProb_unfold by (rule share_close [OF pF bF x y]) simp_all
  show "\<bar>baseBiochar s
           - ((plasticRatio s / 100) * 0.10 + (biomassRatio s / 100) * 0.40)\<bar> \<le> 16 * u52"
    unfolding baseBiochar_unfold by (rule share_close [OF pF bF x y]) simp_all
qed

lemma exact_shares:
  "(plasticRatio s / 100) * 0.65 + (biomassRatio s / 100) * 0.25 = 1 / 4 + (1 / 250) * plasticRatio s"
  "(plasticRatio s / 100) * 0.25 + (biomassRatio s / 100) * 0.35 = 7 / 20 - (1 / 1000) * plasticRatio s"
  "(plasticRatio s / 100) * 0.10 + (biomassRatio s / 100) * 0.40 = 2 / 5 - (3 / 1000) * plasticRatio s"
  by (simp_all add: biomassRatio_def field_simps)

text \<open>The doubles of the blend at the plastic ratios 6 and 50.\<close>

lemma six_pFrac: "fl (6 / 100) = 1080863910568919 / 2 ^ 54"
proof -
  have "fl (6 / 100) = of_int (roundEven ((6 / 100) * 2 ^ (5 + 52))) / 2 ^ (5 + 52)"
    by (rule fl_below_one) simp_all
  moreover have "roundEven ((6 / 100) * 2 ^ (5 + 52)) = 8646911284551352"
    by (simp add: roundEven_def)
  ultimately show ?thesis by simp
qed

lemma six_biomass: "fl (94) = 94"
proof -
  have "fl (94) = of_int (roundEven ((94) * 2 ^ (52 - 6))) / 2 ^ (52 - 6)"
    by (rule fl_above_one) simp_all
  moreover have "roundEven ((94) * 2 ^ (52 - 6)) = 6614661952700416"
    by (simp add: roundEven_def)
  ultimately show ?thesis by simp
qed

lemma six_bFrac: "fl (94 / 100) = 2116691824864133 / 2 ^ 51"
proof -
  have "fl (94 / 100) = of_int (roundEven ((94 / 100) * 2 ^ (1 + 52))) / 2 ^ (1 + 52)"
    by (rule fl_below_one) simp_all
  moreover have "roundEven ((94 / 100) * 2 ^ (1 + 52)) = 8466767299456532"
    by (simp add: roundEven_def)
  ultimately show ?thesis by simp
qed

lemma fl_c65: "fl (0.65) = 5854679515581645 / 2 ^ 53"
proof -
  have "fl (0.65) = of_int (roundEven ((0.65) * 2 ^ (1 + 52))) / 2 ^ (1 + 52)"
    by (rule fl_below_one) simp_all
  moreover have "roundEven ((0.65) * 2 ^ (1 + 52)) = 5854679515581645"
    by (simp add: roundEven_def)
  ultimately show ?thesis by simp
qed

lemma fl_c25: "fl (0.25) = 1 / 2 ^ 2"
proof -
  have "fl (0.25) = of_int (roundEven ((0.25) * 2 ^ (2 + 52))) / 2 ^ (2 + 52)"
    by (rule fl_below_one) simp_all
  moreover have "roundEven ((0.25) * 2 ^ (2 + 52)) = 4503599627370496"
    by (simp add: roundEven_def)
  ultimately show ?thesis by simp
qed

lemma six_oil_p: "fl ((1080863910568919 / 2 ^ 54) * (5854679515581645 / 2 ^ 53)) = 5620492334958379 / 2 ^ 57"
proof -
  have "fl ((1080863910568919 / 2 ^ 54) * (5854679515581645 / 2 ^ 53)) = of_int (roundEven (((1080863910568919 / 2 ^ 54) * (5854679515581645 / 2 ^ 53)) * 2 ^ (5 + 52))) / 2 ^ (5 + 52)"
    by (rule fl_below_one) simp_all
  moreover have "roundEven (((1080863910568919 / 2 ^ 54) * (5854679515581645 / 2 ^ 53)) * 2 ^ (5 + 52)) = 5620492334958379"
    by (simp add: roundEven_def)
  ultimately show ?thesis by simp
qed

lemma six_oil_b: "fl ((2116691824864133 / 2 ^ 51) * (1 / 2 ^ 2)) = 2116691824864133 / 2 ^ 53"
proof -
  have "fl ((2116691824864133 / 2 ^ 51) * (1 / 2 ^ 2)) = of_int (roundEven (((2116691824864133 / 2 ^ 51) * (1 / 2 ^ 2)) * 2 ^ (3 + 52))) / 2 ^ (3 + 52)"
    by (rule fl_below_one) simp_all
  moreover have "roundEven (((2116691824864133 / 2 ^ 51) * (1 / 2 ^ 2)) * 2 ^ (3 + 52)) = 8466767299456532"
    by (simp add: roundEven_def)
  ultimately show ?thesis by simp
qed

lemma six_oil: "fl ((5620492334958379 / 2 ^ 57) + (2116691824864133 / 2 ^ 53)) = 4935945191598063 / 2 ^ 54"
proof -
  have "fl ((5620492334958379 / 2 ^ 57) + (2116691824864133 / 2 ^ 53)) = of_int (roundEven (((5620492334958379 / 2 ^ 57) + (2116691824864133 / 2 ^ 53)) * 2 ^ (2 + 52))) / 2 ^ (2 + 52)"
    by (rule fl_below_one) simp_all
  moreover have "roundEven (((5620492334958379 / 2 ^ 57) + (2116691824864133 / 2 ^ 53)) * 2 ^ (2 + 52)) = 4935945191598063"
    by (simp add: roundEven_def)
  ultimately show ?thesis by simp
qed

lemma fl_c35: "fl (0.35) = 3152519739159347 / 2 ^ 53"
proof -
  have "fl (0.35) = of_int (roundEven ((0.35) * 2 ^ (2 + 52))) / 2 ^ (2 + 52)"
    by (rule fl_below_one) simp_all
  moreover have "roundEven ((0.35) * 2 ^ (2 + 52)) = 6305039478318694"
    by (simp add: roundEven_def)
  ultimately show ?thesis by simp
qed

lemma six_gas_p: "fl ((1080863910568919 / 2 ^ 54) * (1 / 2 ^ 2)) = 1080863910568919 / 2 ^ 56"
proof -
  have "fl ((1080863910568919 / 2 ^ 54) * (1 / 2 ^ 2)) = of_int (roundEven (((1080863910568919 / 2 ^ 54) * (1 / 2 ^ 2)) * 2 ^ (7 + 52))) / 2 ^ (7 + 52)"
    by (rule fl_below_one) simp_all
  moreover have "roundEven (((1080863910568919 / 2 ^ 54) * (1 / 2 ^ 2)) * 2 ^ (7 + 52)) = 8646911284551352"
    by (simp add: roundEven_def)
  ultimately show ?thesis by simp
qed

lemma six_gas_b: "fl ((2116691824864133 / 2 ^ 51) * (3152519739159347 / 2 ^ 53)) = 1481684277404893 / 2 ^ 52"
proof -
  have "fl ((2116691824864133 / 2 ^ 51) * (3152519739159347 / 2 ^ 53)) = of_int (roundEven (((2116691824864133 / 2 ^ 51) * (3152519739159347 / 2 ^ 53)) * 2 ^ (2 + 52))) / 2 ^ (2 + 52)"
    by (rule fl_below_one) simp_all
  moreover have "roundEven (((2116691824864133 / 2 ^ 51) * (3152519739159347 / 2 ^ 53)) * 2 ^ (2 + 52)) = 5926737109619572"
    by (simp add: roundEven_def)
  ultimately show ?thesis by simp
qed

lemma six_gas: "fl ((1080863910568919 / 2 ^ 56) + (1481684277404893 / 2 ^ 52)) = 3098476543630901 / 2 ^ 53"
proof -
  have "fl ((1080863910568919 / 2 ^ 56) + (1481684277404893 / 2 ^ 52)) = of_int (roundEven (((1080863910568919 / 2 ^ 56) + (1481684277404893 / 2 ^ 52)) * 2 ^ (2 + 52))) / 2 ^ (2 + 52)"
    by (rule fl_below_one) simp_all
  moreover have "roundEven (((1080863910568919 / 2 ^ 56) + (1481684277404893 / 2 ^ 52)) * 2 ^ (2 + 52)) = 6196953087261802"
    by (simp add: roundEven_def)
  ultimately show ?thesis by simp
qed

lemma fl_c10: "fl (0.10) = 3602879701896397 / 2 ^ 55"
proof -
  have "fl (0.10) = of_int (roundEven ((0.10) * 2 ^ (4 + 52))) / 2 ^ (4 + 52)"
    by (rule fl_below_one) simp_all
  moreover have "roundEven ((0.10) * 2 ^ (4 + 52)) = 7205759403792794"
    by (simp add: roundEven_def)
  ultimately show ?thesis by simp
qed

lemma fl_c40: "fl (0.40) = 3602879701896397 / 2 ^ 53"
proof -
  have "fl (0.40) = of_int (roundEven ((0.40) * 2 ^ (2 + 52))) / 2 ^ (2 + 52)"
    by (rule fl_below_one) simp_all
  moreover have "roundEven ((0.40) * 2 ^ (2 + 52)) = 7205759403792794"
    by (simp add: roundEven_def)
  ultimately show ?thesis by simp
qed

lemma six_char_p: "fl ((1080863910568919 / 2 ^ 54) * (3602879701896397 / 2 ^ 55)) = 3458764513820541 / 2 ^ 59"
proof -
  have "fl ((1080863910568919 / 2 ^ 54) * (3602879701896397 / 2 ^ 55)) = of_int (roundEven (((1080863910568919 / 2 ^ 54) * (3602879701896397 / 2 ^ 55)) * 2 ^ (8 + 52))) / 2 ^ (8 + 52)"
    by (rule fl_below_one) simp_all
  moreover have "roundEven (((1080863910568919 / 2 ^ 54) * (3602879701896397 / 2 ^ 55)) * 2 ^ (8 + 52)) = 6917529027641082"
    by (simp add: roundEven_def)
  ultimately show ?thesis by simp
qed

lemma six_char_b: "fl ((2116691824864133 / 2 ^ 51) * (3602879701896397 / 2 ^ 53)) = 3386706919782613 / 2 ^ 53"
proof -
  have "fl ((2116691824864133 / 2 ^ 51) * (3602879701896397 / 2 ^ 53)) = of_int (roundEven (((2116691824864133 / 2 ^ 51) * (3602879701896397 / 2 ^ 53)) * 2 ^ (2 + 52))) / 2 ^ (2 + 52)"
    by (rule fl_below_one) simp_all
  moreover have "roundEven (((2116691824864133 / 2 ^ 51) * (3602879701896397 / 2 ^ 53)) * 2 ^ (2 + 52)) = 6773413839565226"
    by (simp add: roundEven_def)
  ultimately show ?thesis by simp
qed

lemma six_char: "fl ((3458764513820541 / 2 ^ 59) + (3386706919782613 / 2 ^ 53)) = 3440750115311059 / 2 ^ 53"
proof -
  have "fl ((3458764513820541 / 2 ^ 59) + (3386706919782613 / 2 ^ 53)) = of_int (roundEven (((3458764513820541 / 2 ^ 59) + (3386706919782613 / 2 ^ 53)) * 2 ^ (2 + 52))) / 2 ^ (2 + 52)"
    by (rule fl_below_one) simp_all
  moreover have "roundEven (((3458764513820541 / 2 ^ 59) + (3386706919782613 / 2 ^ 53)) * 2 ^ (2 + 52)) = 6881500230622118"
    by (simp add: roundEven_def)
  ultimately show ?thesis by simp
qed

lemma six_sum_og: "fl ((4935945191598063 / 2 ^ 54) + (3098476543630901 / 2 ^ 53)) = 1391612284857483 / 2 ^ 51"
proof -
  have "fl ((4935945191598063 / 2 ^ 54) + (3098476543630901 / 2 ^ 53)) = of_int (roundEven (((4935945191598063 / 2 ^ 54) + (3098476543630901 / 2 ^ 53)) * 2 ^ (1 + 52))) / 2 ^ (1 + 52)"
    by (rule fl_below_one) simp_all
  moreover have "roundEven (((4935945191598063 / 2 ^ 54) + (3098476543630901 / 2 ^ 53)) * 2 ^ (1 + 52)) = 5566449139429932"
    by (simp add: roundEven_def)
  ultimately show ?thesis by simp
qed

lemma six_sum: "fl ((1391612284857483 / 2 ^ 51) + (3440750115311059 / 2 ^ 53)) = 9007199254740991 / 2 ^ 53"
proof -
  have "fl ((1391612284857483 / 2 ^ 51) + (3440750115311059 / 2 ^ 53)) = of_int (roundEven (((1391612284857483 / 2 ^ 51) + (3440750115311059 / 2 ^ 53)) * 2 ^ (1 + 52))) / 2 ^ (1 + 52)"
    by (rule fl_below_one) simp_all
  moreover have "roundEven (((1391612284857483 / 2 ^ 51) + (3440750115311059 / 2 ^ 53)) * 2 ^ (1 + 52)) = 9007199254740991"
    by (simp add: roundEven_def)
  ultimately show ?thesis by simp
qed

lemma fifty_pFrac: "fl (50 / 100) = 1 / 2 ^ 1"
proof -
  have "fl (50 / 100) = of_int (roundEven ((50 / 100) * 2 ^ (1 + 52))) / 2 ^ (1 + 52)"
    by (rule fl_below_one) simp_all
  moreover have "roundEven ((50 / 100) * 2 ^ (1 + 52)) = 4503599627370496"
    by (simp add: roundEven_def)
  ultimately show ?thesis by simp
qed

lemma fifty_biomass: "fl (50) = 50"
proof -
  have "fl (50) = of_int (roundEven ((50) * 2 ^ (52 - 5))) / 2 ^ (52 - 5)"
    by (rule fl_above_one) simp_all
  moreover have "roundEven ((50) * 2 ^ (52 - 5)) = 7036874417766400"
    by (simp add: roundEven_def)
  ultimately show ?thesis by simp
qed

lemma fifty_oil_p: "fl ((1 / 2 ^ 1) * (5854679515581645 / 2 ^ 53)) = 5854679515581645 / 2 ^ 54"
proof -
  have "fl ((1 / 2 ^ 1) * (5854679515581645 / 2 ^ 53)) = of_int (roundEven (((1 / 2 ^ 1) * (5854679515581645 / 2 ^ 53)) * 2 ^ (2 + 52))) / 2 ^ (2 + 52)"
    by (rule fl_below_one) simp_all
  moreover have "roundEven (((1 / 2 ^ 1) * (5854679515581645 / 2 ^ 53)) * 2 ^ (2 + 52)) = 5854679515581645"
    by (simp add: roundEven_def)
  ultimately show ?thesis by simp
qed

lemma fifty_oil_b: "fl ((1 / 2 ^ 1) * (1 / 2 ^ 2)) = 1 / 2 ^ 3"
proof -
  have "fl ((1 / 2 ^ 1) * (1 / 2 ^ 2)) = of_int (roundEven (((1 / 2 ^ 1) * (1 / 2 ^ 2)) * 2 ^ (3 + 52))) / 2 ^ (3 + 52)"
    by (rule fl_below_one) simp_all
  moreover have "roundEven (((1 / 2 ^ 1) * (1 / 2 ^ 2)) * 2 ^ (3 + 52)) = 4503599627370496"
    by (simp add: roundEven_def)
  ultimately show ?thesis by simp
qed

lemma fifty_oil: "fl ((5854679515581645 / 2 ^ 54) + (1 / 2 ^ 3)) = 8106479329266893 / 2 ^ 54"
proof -
  have "fl ((5854679515581645 / 2 ^ 54) + (1 / 2 ^ 3)) = of_int (roundEven (((5854679515581645 / 2 ^ 54) + (1 / 2 ^ 3)) * 2 ^ (2 + 52))) / 2 ^ (2 + 52)"
    by (rule fl_below_one) simp_all
  moreover have "roundEven (((5854679515581645 / 2 ^ 54) + (1 / 2 ^ 3)) * 2 ^ (2 + 52)) = 8106479329266893"
    by (simp add: roundEven_def)
  ultimately show ?thesis by simp
qed

lemma fifty_gas_b: "fl ((1 / 2 ^ 1) * (3152519739159347 / 2 ^ 53)) = 3152519739159347 / 2 ^ 54"
proof -
  have "fl ((1 / 2 ^ 1) * (3152519739159347 / 2 ^ 53)) = of_int (roundEven (((1 / 2 ^ 1) * (3152519739159347 / 2 ^ 53)) * 2 ^ (3 + 52))) / 2 ^ (3 + 52)"
    by (rule fl_below_one) simp_all
  moreover have "roundEven (((1 / 2 ^ 1) * (3152519739159347 / 2 ^ 53)) * 2 ^ (3 + 52)) = 6305039478318694"
    by (simp add: roundEven_def)
  ultimately show ?thesis by simp
qed

lemma fifty_gas: "fl ((1 / 2 ^ 3) + (3152519739159347 / 2 ^ 54)) = 5404319552844595 / 2 ^ 54"
proof -
  have "fl ((1 / 2 ^ 3) + (3152519739159347 / 2 ^ 54)) = of_int (roundEven (((1 / 2 ^ 3) + (3152519739159347 / 2 ^ 54)) * 2 ^ (2 + 52))) / 2 ^ (2 + 52)"
    by (rule fl_below_one) simp_all
  moreover have "roundEven (((1 / 2 ^ 3) + (3152519739159347 / 2 ^ 54)) * 2 ^ (2 + 52)) = 5404319552844595"
    by (simp add: roundEven_def)
  ultimately show ?thesis by simp
qed

lemma fifty_char_p: "fl ((1 / 2 ^ 1) * (3602879701896397 / 2 ^ 55)) = 3602879701896397 / 2 ^ 56"
proof -
  have "fl ((1 / 2 ^ 1) * (3602879701896397 / 2 ^ 55)) = of_int (roundEven (((1 / 2 ^ 1) * (3602879701896397 / 2 ^ 55)) * 2 ^ (5 + 52))) / 2 ^ (5 + 52)"
    by (rule fl_below_one) simp_all
  moreover have "roundEven (((1 / 2 ^ 1) * (3602879701896397 / 2 ^ 55)) * 2 ^ (5 + 52)) = 7205759403792794"
    by (simp add: roundEven_def)
  ultimately show ?thesis by simp
qed

lemma fifty_char_b: "fl ((1 / 2 ^ 1) * (3602879701896397 / 2 ^ 53)) = 3602879701896397 / 2 ^ 54"
proof -
  have "fl ((1 / 2 ^ 1) * (3602879701896397 / 2 ^ 53)) = of_int (roundEven (((1 / 2 ^ 1) * (3602879701896397 / 2 ^ 53)) * 2 ^ (3 + 52))) / 2 ^ (3 + 52)"
    by (rule fl_below_one) simp_all
  moreover have "roundEven (((1 / 2 ^ 1) * (3602879701896397 / 2 ^ 53)) * 2 ^ (3 + 52)) = 7205759403792794"
    by (simp add: roundEven_def)
  ultimately show ?thesis by simp
qed

lemma fifty_char: "fl ((3602879701896397 / 2 ^ 56) + (3602879701896397 / 2 ^ 54)) = 1 / 2 ^ 2"
proof -
  have "fl ((3602879701896397 / 2 ^ 56) + (3602879701896397 / 2 ^ 54)) = of_int (roundEven (((3602879701896397 / 2 ^ 56) + (3602879701896397 / 2 ^ 54)) * 2 ^ (2 + 52))) / 2 ^ (2 + 52)"
    by (rule fl_below_one) simp_all
  moreover have "roundEven (((3602879701896397 / 2 ^ 56) + (3602879701896397 / 2 ^ 54)) * 2 ^ (2 + 52)) = 4503599627370496"
    by (simp add: roundEven_def)
  ultimately show ?thesis by simp
qed

lemma fifty_rem_o: "fl (1 - (8106479329266893 / 2 ^ 54)) = 2476979795053773 / 2 ^ 52"
proof -
  have "fl (1 - (8106479329266893 / 2 ^ 54)) = of_int (roundEven ((1 - (8106479329266893 / 2 ^ 54)) * 2 ^ (1 + 52))) / 2 ^ (1 + 52)"
    by (rule fl_below_one) simp_all
  moreover have "roundEven ((1 - (8106479329266893 / 2 ^ 54)) * 2 ^ (1 + 52)) = 4953959590107546"
    by (simp add: roundEven_def)
  ultimately show ?thesis by simp
qed

lemma fifty_rem: "fl ((2476979795053773 / 2 ^ 52) - (5404319552844595 / 2 ^ 54)) = 4503599627370497 / 2 ^ 54"
proof -
  have "fl ((2476979795053773 / 2 ^ 52) - (5404319552844595 / 2 ^ 54)) = of_int (roundEven (((2476979795053773 / 2 ^ 52) - (5404319552844595 / 2 ^ 54)) * 2 ^ (2 + 52))) / 2 ^ (2 + 52)"
    by (rule fl_below_one) simp_all
  moreover have "roundEven (((2476979795053773 / 2 ^ 52) - (5404319552844595 / 2 ^ 54)) * 2 ^ (2 + 52)) = 4503599627370497"
    by (simp add: roundEven_def)
  ultimately show ?thesis by simp
qed

lemma ratio_fields:
  "plasticRatio ratioSix = 6" "biomassRatio ratioSix = 94"
  "plasticRatio init = 50" "biomassRatio init = 50"
  by (simp_all add: ratioSix_def init_def biomassRatio_def)

lemma six_values:
  "oilProb (getProductProbabilities ratioSix) = 4935945191598063 / 2 ^ 54"
  "gasProb (getProductProbabilities ratioSix) = 3098476543630901 / 2 ^ 53"
  "baseBiochar ratioSix = 3440750115311059 / 2 ^ 53"
  by (simp_all only: oilProb_unfold gasProb_unfold baseBiochar_unfold ratio_fields
      six_pFrac six_biomass six_bFrac fl_c65 fl_c25 six_oil_p six_oil_b six_oil fl_c35 six_gas_p six_gas_b six_gas fl_c10 fl_c40 six_char_p six_char_b six_char)

lemma fifty_values:
  "oilProb (getProductProbabilities init) = 8106479329266893 / 2 ^ 54"
  "gasProb (getProductProbabilities init) = 5404319552844595 / 2 ^ 54"
  "baseBiochar init = 1 / 2 ^ 2"
  by (simp_all only: oilProb_unfold gasProb_unfold baseBiochar_unfold ratio_fields
      fifty_pFrac fifty_biomass fl_c65 fl_c25 fifty_oil_p fifty_oil_b fifty_oil fl_c35 fifty_gas_b fifty_gas fl_c10 fl_c40 fifty_char_p fifty_char_b fifty_char)

text \<open>
  Claim C1 as the specification states it fails. At the plastic ratio 6 the three shares
  that the code computes sum to \<open>1 - 1 / 2 ^ 54\<close>, and their sum in double arithmetic is the
  double below 1, so neither is the sum 1 nor the remainder \<open>1 - oilProb - gasProb\<close> the base
  biochar yield; at the initial ratio 50 the remainder computed in double arithmetic is
  the double above the base biochar yield \<open>1 / 4\<close>.
\<close>

theorem getProductProbabilities_exact_counterexample:
  "0 \<le> plasticRatio ratioSix \<and> plasticRatio ratioSix \<le> 100
   \<and> oilProb (getProductProbabilities ratioSix) = 4935945191598063 / 2 ^ 54
   \<and> oilProb (getProductProbabilities ratioSix) + gasProb (getProductProbabilities ratioSix)
       + baseBiochar ratioSix = 1 - 1 / 2 ^ 54
   \<and> oilProb (getProductProbabilities ratioSix) + gasProb (getProductProbabilities ratioSix)
       + baseBiochar ratioSix \<noteq> 1
   \<and> 1 - oilProb (getProductProbabilities ratioSix) - gasProb (getProductProbabilities ratioSix)
       \<noteq> baseBiochar ratioSix
   \<and> fl (fl (oilProb (getProductProbabilities ratioSix) + gasProb (getProductProbabilities ratioSix))
          + baseBiochar ratioSix) = 1 - 1 / 2 ^ 53
   \<and> fl (fl (1 - oilProb (getProductProbabilities init)) - gasProb (getProductProbabilities init))
       = 1 / 4 + 1 / 2 ^ 54
   \<and> baseBiochar init = 1 / 4"
proof -
  have range: "0 \<le> plasticRatio ratioSix \<and> plasticRatio ratioSix \<le> 100"
    by (simp add: ratio_fields)
  have total: "oilProb (getProductProbabilities ratioSix) + gasProb (getProductProbabilities ratioSix)
       + baseBiochar ratioSix = 1 - 1 / 2 ^ 54"
    unfolding six_values by simp
  have rounded: "fl (fl (oilProb (getProductProbabilities ratioSix)
       + gasProb (getProductProbabilities ratioSix)) + baseBiochar ratioSix) = 1 - 1 / 2 ^ 53"
    unfolding six_values six_sum_og six_sum by simp
  have remainder: "fl (fl (1 - oilProb (getProductProbabilities init))
       - gasProb (getProductProbabilities init)) = 1 / 4 + 1 / 2 ^ 54"
    unfolding fifty_values fifty_rem_o fifty_rem by simp
  have quarter: "baseBiochar init = 1 / 4"
    unfolding fifty_values by simp
  from total have "oilProb (getProductProbabilities ratioSix)
       + gasProb (getProductProbabilities ratioSix) + baseBiochar ratioSix \<noteq> 1"
    by simp
  moreover from total have "1 - oilProb (getProductProbabilities ratioSix)
       - gasProb (getProductProbabilities ratioSix) \<noteq> baseBiochar ratioSix"
    by simp
  ultimately show ?thesis
    using range six_values(1) total rounded remainder quarter by blast
qed

text \<open>
  Claim C1, amended. For a plastic ratio between 0 and 100, with the biomass ratio its
  complement to 100, \<open>getProductProbabilities\<close> returns the two weighted averages, every
  literal and operation rounded to a double; each lies between 0 and 1, and their sum,
  exact or rounded, is at most 1. The exact weighted averages sum to 1 with the exact
  biochar average. The shares that the code computes are within \<open>2\<close> to the power \<open>-48\<close>
  of the exact ones, so that the remainder \<open>1 - oilProb - gasProb\<close> is the base biochar
  yield of \<open>calculateYields\<close>, and the three sum to 1, up to \<open>2\<close> to the power \<open>-46\<close>.
\<close>

theorem getProductProbabilities_rounded:
  assumes "0 \<le> plasticRatio s" and "plasticRatio s \<le> 100"
  shows "oilProb (getProductProbabilities s)
           = fl (fl (fl (plasticRatio s / 100) * fl 0.65)
                 + fl (fl (fl (biomassRatio s) / 100) * fl 0.25))
       \<and> gasProb (getProductProbabilities s)
           = fl (fl (fl (plasticRatio s / 100) * fl 0.25)
                 + fl (fl (fl (biomassRatio s) / 100) * fl 0.35))
       \<and> 0 \<le> oilProb (getProductProbabilities s) \<and> oilProb (getProductProbabilities s) \<le> 1
       \<and> 0 \<le> gasProb (getProductProbabilities s) \<and> gasProb (getProductProbabilities s) \<le> 1
       \<and> oilProb (getProductProbabilities s) + gasProb (getProductProbabilities s) \<le> 1
       \<and> fl (oilProb (getProductProbabilities s) + gasProb (getProductProbabilities s)) \<le> 1
       \<and> ((plasticRatio s / 100) * 0.65 + (biomassRatio s / 100) * 0.25)
           + ((plasticRatio s / 100) * 0.25 + (biomassRatio s / 100) * 0.35)
           + ((plasticRatio s / 100) * 0.10 + (biomassRatio s / 100) * 0.40) = 1
       \<and> \<bar>oilProb (getProductProbabilities s)
            - ((plasticRatio s / 100) * 0.65 + (biomassRatio s / 100) * 0.25)\<bar> \<le> 1 / 2 ^ 48
       \<and> \<bar>gasProb (getProductProbabilities s)
            - ((plasticRatio s / 100) * 0.25 + (biomassRatio s / 100) * 0.35)\<bar> \<le> 1 / 2 ^ 48
       \<and> \<bar>baseBiochar s
            - ((plasticRatio s / 100) * 0.10 + (biomassRatio s / 100) * 0.40)\<bar> \<le> 1 / 2 ^ 48
       \<and> \<bar>1 - oilProb (getProductProbabilities s) - gasProb (getProductProbabilities s)
            - baseBiochar s\<bar> \<le> 1 / 2 ^ 46
       \<and> \<bar>oilProb (getProductProbabilities s) + gasProb (getProductProbabilities s)
            + baseBiochar s - 1\<bar> \<le> 1 / 2 ^ 46"
proof -
  let ?oil = "oilProb (getProductProbabilities s)"
  let ?gas = "gasProb (getProductProbabilities s)"
  note close = shares_close [OF assms]
  note lin = shares_close [OF assms, unfolded exact_shares]
  note u = u52_bounds
  have r: "0 \<le> ?oil" "?oil \<le> 1" "0 \<le> ?gas" "?gas \<le> 1" "?oil + ?gas \<le> 1"
    using lin(1,2) assms u by linarith+
  have "\<bar>?oil + ?gas\<bar> \<le> 2" using r by linarith
  then have "\<bar>fl (?oil + ?gas) - (?oil + ?gas)\<bar> \<le> u52" by (rule fl_close)
  then have rsum: "fl (?oil + ?gas) \<le> 1"
    using lin(1,2) assms u by linarith
  have exact: "((plasticRatio s / 100) * 0.65 + (biomassRatio s / 100) * 0.25)
           + ((plasticRatio s / 100) * 0.25 + (biomassRatio s / 100) * 0.35)
           + ((plasticRatio s / 100) * 0.10 + (biomassRatio s / 100) * 0.40) = 1"
    unfolding exact_shares by simp
  have n: "\<bar>?oil - ((plasticRatio s / 100) * 0.65 + (biomassRatio s / 100) * 0.25)\<bar> \<le> 1 / 2 ^ 48"
    "\<bar>?gas - ((plasticRatio s / 100) * 0.25 + (biomassRatio s / 100) * 0.35)\<bar> \<le> 1 / 2 ^ 48"
    "\<bar>baseBiochar s - ((plasticRatio s / 100) * 0.10 + (biomassRatio s / 100) * 0.40)\<bar>
       \<le> 1 / 2 ^ 48"
    using close(1) u52_le(1) apply (rule order_trans)
    using close(2) u52_le(1) apply (rule order_trans)
    using close(3) u52_le(1) by (rule order_trans)
  have "\<bar>1 - ?oil - ?gas - baseBiochar s\<bar> \<le> 64 * u52"
    using lin u by linarith
  then have s1: "\<bar>1 - ?oil - ?gas - baseBiochar s\<bar> \<le> 1 / 2 ^ 46"
    using u52_le(2) by (rule order_trans)
  have "\<bar>?oil + ?gas + baseBiochar s - 1\<bar> \<le> 64 * u52"
    using lin u by linarith
  then have s2: "\<bar>?oil + ?gas + baseBiochar s - 1\<bar> \<le> 1 / 2 ^ 46"
    using u52_le(2) by (rule order_trans)
  show ?thesis
    by (intro conjI) (rule oilProb_unfold gasProb_unfold r rsum exact n s1 s2)+
qed

theorem getProductProbabilities_rounded_witness:
  "0 \<le> plasticRatio init \<and> plasticRatio init \<le> 100
   \<and> oilProb (getProductProbabilities init) = 8106479329266893 / 2 ^ 54
   \<and> gasProb (getProductProbabilities init) = 5404319552844595 / 2 ^ 54
   \<and> baseBiochar init = 1 / 4
   \<and> oilProb (getProductProbabilities init) + gasProb (getProductProbabilities init) \<le> 1
   \<and> \<bar>oilProb (getProductProbabilities init) - 0.45\<bar> \<le> 1 / 2 ^ 48
   \<and> \<bar>oilProb (getProductProbabilities init) + gasProb (getProductProbabilities init)
        + baseBiochar init - 1\<bar> \<le> 1 / 2 ^ 46"
proof -
  have h: "0 \<le> plasticRatio init" "plasticRatio init \<le> 100"
    by (simp_all add: ratio_fields)
  note t = getProductProbabilities_rounded [OF h]
  have q: "baseBiochar init = 1 / 4"
    unfolding fifty_values by simp
  have e: "(plasticRatio init / 100) * 0.65 + (biomassRatio init / 100) * 0.25 = 0.45"
    by (simp add: ratio_fields)
  from t have a: "oilProb (getProductProbabilities init) + gasProb (getProductProbabilities init) \<le> 1"
    by (elim conjE)
  from t have "\<bar>oilProb (getProductProbabilities init)
        - ((plasticRatio init / 100) * 0.65 + (biomassRatio init / 100) * 0.25)\<bar> \<le> 1 / 2 ^ 48"
    by (elim conjE)
  then have b: "\<bar>oilProb (getProductProbabilities init) - 0.45\<bar> \<le> 1 / 2 ^ 48"
    by (simp only: e)
  from t have c: "\<bar>oilProb (getProductProbabilities init) + gasProb (getProductProbabilities init)
        + baseBiochar init - 1\<bar> \<le> 1 / 2 ^ 46"
    by (elim conjE)
  show ?thesis
    by (intro conjI) (rule h fifty_values(1,2) q a b c)+
qed

section \<open>The feedstock input\<close>

text \<open>Evaluation of \<open>parseInt\<close> on sample inputs.\<close>

lemma codeUnits_samples:
  "codeUnits ''250'' = [50, 53, 48]"
  "codeUnits '' -7px'' = [32, 45, 55, 112, 120]"
  "codeUnits ''abc'' = [97, 98, 99]"
  "codeUnits ''42'' = [52, 50]"
  by (simp_all add: codeUnits_def)

lemma isWhiteSpace_samples:
  "\<not> isWhiteSpace 50" "\<not> isWhiteSpace 45" "\<not> isWhiteSpace 97" "\<not> isWhiteSpace 52"
  "isWhiteSpace 32"
  by (simp_all add: isWhiteSpace_def)

lemmas parseInt_unfold =
  parseInt_def stripSign_def stripPrefix_def isRadixDigit_def digitValue_def digitsValue_def

lemma parseInt_samples:
  "parseInt (codeUnits ''250'') = Some 250"
  "parseInt (codeUnits '' -7px'') = Some (- 7)"
  "parseInt (codeUnits ''abc'') = None"
  "parseInt (codeUnits ''42'') = Some 42"
  by (simp_all add: codeUnits_samples isWhiteSpace_samples parseInt_unfold)

text \<open>
  Claim C3. Whatever value reaches \<open>handlePlasticChange\<close>, the plastic ratio it stores is
  an integer between 0 and 100: a value that parses above 100 gives 100, one that parses
  below 0 gives 0, one within the range is kept, and one that does not parse gives 0.
\<close>

theorem handlePlasticChange_clamped:
  "(\<exists>k::int. plasticRatio (handlePlasticChange v s) = of_int k \<and> 0 \<le> k \<and> k \<le> 100)
   \<and> (\<forall>n. parseInt v = Some n \<and> 100 < n \<longrightarrow> plasticRatio (handlePlasticChange v s) = 100)
   \<and> (\<forall>n. parseInt v = Some n \<and> n < 0 \<longrightarrow> plasticRatio (handlePlasticChange v s) = 0)
   \<and> (\<forall>n. parseInt v = Some n \<and> 0 \<le> n \<and> n \<le> 100
          \<longrightarrow> plasticRatio (handlePlasticChange v s) = of_int n)
   \<and> (parseInt v = None \<longrightarrow> plasticRatio (handlePlasticChange v s) = 0)"
proof -
  let ?c = "max 0 (min 100 (orZero (parseInt v)))"
  have eq: "plasticRatio (handlePlasticChange v s) = of_int ?c"
    by (simp add: handlePlasticChange_def Let_def)
  have "0 \<le> ?c \<and> ?c \<le> 100" by simp
  then have range: "\<exists>k::int. plasticRatio (handlePlasticChange v s) = of_int k \<and> 0 \<le> k \<and> k \<le> 100"
    using eq by blast
  have above: "\<forall>n. parseInt v = Some n \<and> 100 < n \<longrightarrow> plasticRatio (handlePlasticChange v s) = 100"
    unfolding eq by (simp add: orZero_def)
  have below: "\<forall>n. parseInt v = Some n \<and> n < 0 \<longrightarrow> plasticRatio (handlePlasticChange v s) = 0"
    unfolding eq by (simp add: orZero_def)
  have inside: "\<forall>n. parseInt v = Some n \<and> 0 \<le> n \<and> n \<le> 100
          \<longrightarrow> plasticRatio (handlePlasticChange v s) = of_int n"
    unfolding eq by (simp add: orZero_def)
  have nan: "parseInt v = None \<longrightarrow> plasticRatio (handlePlasticChange v s) = 0"
    unfolding eq by (simp add: orZero_def)
  from range above below inside nan show ?thesis by blast
qed

theorem handlePlasticChange_clamped_witness:
  "plasticRatio (handlePlasticChange (codeUnits ''250'') init) = 100
   \<and> plasticRatio (handlePlasticChange (codeUnits '' -7px'') init) = 0
   \<and> plasticRatio (handlePlasticChange (codeUnits ''abc'') init) = 0
   \<and> plasticRatio (handlePlasticChange (codeUnits ''42'') init) = 42"
  using handlePlasticChange_clamped [of "codeUnits ''250''" init]
        handlePlasticChange_clamped [of "codeUnits '' -7px''" init]
        handlePlasticChange_clamped [of "codeUnits ''abc''" init]
        handlePlasticChange_clamped [of "codeUnits ''42''" init]
  by (simp add: parseInt_samples)

section \<open>Dropping a product on a bin\<close>

lemma binCount_incBin:
  "binCount b (incBin b' c) = (if b = b' then binCount b c + 1 else binCount b c)"
  by (cases b; cases b') (simp_all add: binCount_def incBin_def)

text \<open>
  Claim C6. A call of \<open>handleDrop\<close> with equal product and bin type adds one to the
  count of that bin and leaves the other counts and the losses as they are; with different
  types it adds one to the losses and leaves the three counts as they are. In both cases
  no product with the given id is left on screen, and the other products stay, in order.
\<close>

theorem handleDrop_effect:
  "(productType = binType \<longrightarrow>
      binCount binType (sortingProgress (handleDrop binType productType productId s))
        = binCount binType (sortingProgress s) + 1
      \<and> (\<forall>b. b \<noteq> binType \<longrightarrow>
            binCount b (sortingProgress (handleDrop binType productType productId s))
              = binCount b (sortingProgress s))
      \<and> losses (handleDrop binType productType productId s) = losses s)
   \<and> (productType \<noteq> binType \<longrightarrow>
      losses (handleDrop binType productType productId s) = losses s + 1
      \<and> sortingProgress (handleDrop binType productType productId s) = sortingProgress s)
   \<and> (\<forall>p \<in> set (spawnedProducts (handleDrop binType productType productId s)).
         pid p \<noteq> productId)
   \<and> filter (\<lambda>p. pid p \<noteq> productId) (spawnedProducts (handleDrop binType productType productId s))
       = filter (\<lambda>p. pid p \<noteq> productId) (spawnedProducts s)"
  by (simp add: handleDrop_def Let_def binCount_incBin)

theorem handleDrop_effect_witness:
  "binCount Syngas (sortingProgress (handleDrop Syngas Syngas 0 twoProducts)) = 1
   \<and> losses (handleDrop Syngas Syngas 0 twoProducts) = 0
   \<and> losses (handleDrop Syngas Biochar 1 twoProducts) = 1
   \<and> map pid (spawnedProducts (handleDrop Syngas Biochar 1 twoProducts)) = [0]"
proof -
  have a: "binCount Syngas (sortingProgress twoProducts) = 0" "losses twoProducts = 0"
    by (simp_all add: twoProducts_def init_def binCount_def)
  have b: "map pid (spawnedProducts (handleDrop Syngas Biochar 1 twoProducts)) = [0]"
    by (simp add: handleDrop_def twoProducts_def)
  show ?thesis
    using handleDrop_effect [of Syngas Syngas 0 twoProducts]
          handleDrop_effect [of Biochar Syngas 1 twoProducts] a b
    by simp
qed

section \<open>Heating a cell\<close>

lemma isGrid10_nth: "isGrid10 g \<Longrightarrow> r < 10 \<Longrightarrow> length (g ! r) = 10"
  by (simp add: isGrid10_def list_all_length)

lemma isGrid10_update:
  "isGrid10 g \<Longrightarrow> length row' = 10 \<Longrightarrow> isGrid10 (g[r := row'])"
proof -
  assume g: "isGrid10 g" and l: "length row' = 10"
  have "length ((g[r := row']) ! n) = 10" if "n < 10" for n
    using that g l by (cases "n = r") (simp_all add: isGrid10_def list_all_length)
  then show ?thesis using g by (simp add: isGrid10_def list_all_length)
qed

lemma isGrid10_emptyGrid: "isGrid10 emptyGrid"
  by (simp add: isGrid10_def emptyGrid_def list_all_length)

text \<open>
  Claim C7. On a 10 by 10 grid and for a row and a column below 10, in stage 2
  \<open>handleCellInteraction\<close> replaces the cell at that row and column by the minimum of 100
  and its value plus 50 and leaves every other cell as it is; in any other stage it
  leaves the state, and so the grid, as it is.
\<close>

theorem handleCellInteraction_frame:
  assumes "row < 10" and "col < 10" and "isGrid10 (heatGrid s)"
  shows "(stage s = 2 \<longrightarrow>
           (\<exists>s'. handleCellInteraction row col s = Inr s'
              \<and> heatGrid s' ! row ! col = min 100 (heatGrid s ! row ! col + 50)
              \<and> (\<forall>r c. r < 10 \<and> c < 10 \<and> (r, c) \<noteq> (row, col)
                    \<longrightarrow> heatGrid s' ! r ! c = heatGrid s ! r ! c)
              \<and> isGrid10 (heatGrid s')))
       \<and> (stage s \<noteq> 2 \<longrightarrow> handleCellInteraction row col s = Inr s)"
proof -
  let ?g = "heatGrid s"
  let ?row' = "(?g ! row)[col := min 100 (?g ! row ! col + 50)]"
  have len: "length ?g = 10" using assms(3) by (simp add: isGrid10_def)
  have lrow: "length (?g ! row) = 10" using assms(1,3) by (rule_tac isGrid10_nth)
  have other: "handleCellInteraction row col s = Inr s" if "stage s \<noteq> 2"
    using that by (simp add: handleCellInteraction_def)
  have heat: "\<exists>s'. handleCellInteraction row col s = Inr s'
              \<and> heatGrid s' ! row ! col = min 100 (heatGrid s ! row ! col + 50)
              \<and> (\<forall>r c. r < 10 \<and> c < 10 \<and> (r, c) \<noteq> (row, col)
                    \<longrightarrow> heatGrid s' ! r ! c = heatGrid s ! r ! c)
              \<and> isGrid10 (heatGrid s')" if st: "stage s = 2"
  proof -
    have eq: "handleCellInteraction row col s = Inr (s\<lparr>heatGrid := ?g[row := ?row']\<rparr>)"
      using st assms(1,2) len lrow by (simp add: handleCellInteraction_def)
    have cell: "(?g[row := ?row']) ! row ! col = min 100 (?g ! row ! col + 50)"
      using assms(1,2) len lrow by simp
    have rest: "(?g[row := ?row']) ! r ! c = ?g ! r ! c"
      if "r < 10" "c < 10" "(r, c) \<noteq> (row, col)" for r c
      using that len lrow by (cases "r = row") (simp_all add: nth_list_update)
    have shape: "isGrid10 (?g[row := ?row'])"
      using assms(3) lrow by (simp add: isGrid10_update)
    show ?thesis
      using eq cell rest shape by simp
  qed
  from other heat show ?thesis by blast
qed


lemma emptyGrid_nth: "r < 10 \<Longrightarrow> c < 10 \<Longrightarrow> emptyGrid ! r ! c = 0"
  by (simp add: emptyGrid_def)

theorem handleCellInteraction_frame_witness:
  "(3::nat) < 10 \<and> (4::nat) < 10 \<and> isGrid10 (heatGrid heating) \<and> stage heating = 2
   \<and> (\<exists>s'. handleCellInteraction 3 4 heating = Inr s'
         \<and> heatGrid s' ! 3 ! 4 = 50 \<and> heatGrid s' ! 0 ! 0 = 0)
   \<and> stage init \<noteq> 2 \<and> handleCellInteraction 3 4 init = Inr init"
proof -
  have g: "isGrid10 (heatGrid heating)" "isGrid10 (heatGrid init)"
    by (simp_all add: heating_def init_def isGrid10_emptyGrid)
  have st: "stage heating = 2" "stage init \<noteq> 2"
    by (simp_all add: heating_def init_def)
  have z: "heatGrid heating ! 3 ! 4 = 0" "heatGrid heating ! 0 ! 0 = 0"
    by (simp_all add: heating_def init_def emptyGrid_nth)
  have i: "(3::nat) < 10" "(4::nat) < 10" by simp_all
  from handleCellInteraction_frame [OF i g(1)] st(1) z
  have "\<exists>s'. handleCellInteraction 3 4 heating = Inr s'
         \<and> heatGrid s' ! 3 ! 4 = 50 \<and> heatGrid s' ! 0 ! 0 = 0"
    by auto
  moreover from handleCellInteraction_frame [OF i g(2)] st(2)
  have "handleCellInteraction 3 4 init = Inr init" by simp
  ultimately show ?thesis using g st by simp
qed

section \<open>Steps of the transition system\<close>

lemmas handler_defs =
  handlePlasticChange_def cellOrSame_def handleCellInteraction_def generateQueue_def
  spawnTick_def handleDrop_def coolingTick_def resetGame_def Let_def

lemma effect_fields [simp]:
  "stage (sortingCompletionEffect s) = stage s"
  "plasticRatio (sortingCompletionEffect s) = plasticRatio s"
  "heatGrid (sortingCompletionEffect s) = heatGrid s"
  "coolingPower (sortingCompletionEffect s) = coolingPower s"
  "gasTemp (sortingCompletionEffect s) = gasTemp s"
  "coolingTime (sortingCompletionEffect s) = coolingTime s"
  "coolingStarted (sortingCompletionEffect s) = coolingStarted s"
  "condensedFuel (sortingCompletionEffect s) = condensedFuel s"
  "sortingProgress (sortingCompletionEffect s) = sortingProgress s"
  "spawnedProducts (sortingCompletionEffect s) = spawnedProducts s"
  "losses (sortingCompletionEffect s) = losses s"
  "productQueue (sortingCompletionEffect s) = productQueue s"
  "totalSpawned (sortingCompletionEffect s) = totalSpawned s"
  "spawnIdRef (sortingCompletionEffect s) = spawnIdRef s"
  by (simp_all add: sortingCompletionEffect_def)

lemma stage_handlers [simp]:
  "stage (handlePlasticChange v s) = stage s"
  "stage (cellOrSame row col s) = stage s"
  "stage (generateQueue rolls s) = stage s"
  "stage (spawnTick x now s) = stage s"
  "stage (handleDrop b t i s) = stage s"
  "stage (coolingTick s) = stage s"
  "stage (resetGame s) = 0"
  by (simp_all add: handler_defs)

lemma stage_step:
  "stage (step s e) \<noteq> stage s \<Longrightarrow>
     (stage (step s e) = stage s + 1 \<and> stage s < 5)
     \<or> (e = Reset \<and> stage s = 5 \<and> stage (step s e) = 0)"
  by (cases e) (simp_all add: step_def split: if_splits)

lemma stage_step_le: "stage s \<le> 5 \<Longrightarrow> stage (step s e) \<le> 5"
  by (cases e) (simp_all add: step_def)

lemma stage_run_le: "stage s \<le> 5 \<Longrightarrow> stage (run s evs) \<le> 5"
  by (induction evs arbitrary: s) (simp_all add: stage_step_le)

text \<open>
  Claim C5. The stage of a reachable state is one of 0 to 5, and a step that changes the
  stage either adds one to it, below 5, or is the reset of the results stage, which sets
  it to 0.
\<close>

theorem stage_transitions:
  "stage (run init evs) \<le> 5
   \<and> (stage (step s e) \<noteq> stage s \<longrightarrow>
        (stage (step s e) = stage s + 1 \<and> stage s < 5)
        \<or> (e = Reset \<and> stage s = 5 \<and> stage (step s e) = 0))"
proof -
  have "stage init \<le> 5" by (simp add: init_def)
  then have "stage (run init evs) \<le> 5" by (rule stage_run_le)
  then show ?thesis using stage_step [of s e] by blast
qed

theorem stage_transitions_witness:
  "stage (step init Begin) \<noteq> stage init \<and> stage (step init Begin) = stage init + 1
   \<and> stage (step results Reset) \<noteq> stage results \<and> stage (step results Reset) = 0
   \<and> stage (run init [Begin, ToHeating]) = 2"
proof -
  have a: "stage (step init Begin) = 1" "stage init = 0"
    by (simp_all add: step_def init_def)
  have b: "stage (step results Reset) = 0" "stage results = 5"
    by (simp_all add: step_def results_def init_def resetGame_def)
  have c: "stage (run init [Begin, ToHeating]) = 2"
    by (simp add: step_def init_def)
  show ?thesis
    using stage_transitions [of "[Begin, ToHeating]" init Begin]
          stage_transitions [of "[]" results Reset] a b c
    by simp
qed

section \<open>The heat grid stays within its range\<close>

lemma cellsInRange_emptyGrid: "cellsInRange emptyGrid"
  by (simp add: cellsInRange_def emptyGrid_def list_all_length)

lemma cellsInRange_heated:
  assumes "cellsInRange g" and "row < length g"
  shows "cellsInRange (g[row := (g ! row)[col := min 100 (g ! row ! col + 50)]])"
proof -
  have cells: "0 \<le> g ! r ! c \<and> g ! r ! c \<le> 100" if "r < length g" "c < length (g ! r)" for r c
    using assms(1) that by (simp add: cellsInRange_def list_all_length)
  let ?v = "min 100 (g ! row ! col + 50)"
  have v: "col < length (g ! row) \<Longrightarrow> 0 \<le> ?v \<and> ?v \<le> 100"
    using cells [OF assms(2), of col] by simp
  have "0 \<le> (g[row := (g ! row)[col := ?v]]) ! r ! c
        \<and> (g[row := (g ! row)[col := ?v]]) ! r ! c \<le> 100"
    if "r < length g" "c < length ((g[row := (g ! row)[col := ?v]]) ! r)" for r c
  proof (cases "r = row")
    case True
    then show ?thesis
      using that cells [of row c] v by (cases "c = col") simp_all
  next
    case False
    then show ?thesis using that cells [of r c] by simp
  qed
  then show ?thesis by (simp add: cellsInRange_def list_all_length)
qed

lemma heatGrid_handlers [simp]:
  "heatGrid (handlePlasticChange v s) = heatGrid s"
  "heatGrid (generateQueue rolls s) = heatGrid s"
  "heatGrid (spawnTick x now s) = heatGrid s"
  "heatGrid (handleDrop b t i s) = heatGrid s"
  "heatGrid (coolingTick s) = heatGrid s"
  "heatGrid (resetGame s) = emptyGrid"
  by (simp_all add: handler_defs)

lemma cellsInRange_cellOrSame:
  "cellsInRange (heatGrid s) \<Longrightarrow> cellsInRange (heatGrid (cellOrSame row col s))"
  by (simp add: cellOrSame_def handleCellInteraction_def cellsInRange_heated)

lemma cellsInRange_step:
  "cellsInRange (heatGrid s) \<Longrightarrow> cellsInRange (heatGrid (step s e))"
  by (cases e) (simp_all add: step_def cellsInRange_cellOrSame cellsInRange_emptyGrid)

lemma cellsInRange_run:
  "cellsInRange (heatGrid s) \<Longrightarrow> cellsInRange (heatGrid (run s evs))"
  by (induction evs arbitrary: s) (simp_all add: cellsInRange_step)

text \<open>
  Claim C8. In every state that the component reaches from its initial state, every cell
  of the heat grid lies between 0 and 100.
\<close>

theorem heatGrid_cells_in_range:
  "cellsInRange (heatGrid (run init evs))"
  by (rule cellsInRange_run) (simp add: init_def cellsInRange_emptyGrid)

lemma threeTouches_cell: "heatGrid (run init threeTouches) ! 0 ! 0 = 100"
  by (simp add: threeTouches_def step_def cellRendered_def cellOrSame_def
      handleCellInteraction_def sortingCompletionEffect_def totalSorted_def init_def
      emptyGrid_def)

theorem heatGrid_cells_in_range_witness:
  "cellsInRange (heatGrid (run init threeTouches))
   \<and> heatGrid (run init threeTouches) ! 0 ! 0 = 100"
  using heatGrid_cells_in_range [of threeTouches] threeTouches_cell by simp

section \<open>The gas temperature\<close>

lemma gasTemp_handlers [simp]:
  "gasTemp (handlePlasticChange v s) = gasTemp s"
  "gasTemp (cellOrSame row col s) = gasTemp s"
  "gasTemp (generateQueue rolls s) = gasTemp s"
  "gasTemp (spawnTick x now s) = gasTemp s"
  "gasTemp (handleDrop b t i s) = gasTemp s"
  "gasTemp (coolingTick s) = max 100 (min 900 (gasTemp s - coolingPower s * 1.5 + 2))"
  "gasTemp (resetGame s) = 600"
  by (simp_all add: handler_defs)

lemma gasTemp_step:
  "100 \<le> gasTemp s \<and> gasTemp s \<le> 900
   \<Longrightarrow> 100 \<le> gasTemp (step s e) \<and> gasTemp (step s e) \<le> 900"
  by (cases e) (simp_all add: step_def)

lemma gasTemp_run:
  "100 \<le> gasTemp s \<and> gasTemp s \<le> 900
   \<Longrightarrow> 100 \<le> gasTemp (run s evs) \<and> gasTemp (run s evs) \<le> 900"
proof (induction evs arbitrary: s)
  case Nil
  then show ?case by simp
next
  case (Cons e evs)
  from Cons.prems have "100 \<le> gasTemp (step s e) \<and> gasTemp (step s e) \<le> 900"
    by (rule gasTemp_step)
  then show ?case using Cons.IH by simp
qed

text \<open>
  Claim C4. A tick of the cooling timer sets the gas temperature to the previous one minus
  1.5 times the cooling power plus 2, clamped to the range from 100 to 900, whatever the
  cooling power and the previous temperature are; after one or more ticks, and in every
  reachable state, the temperature is within that range.
\<close>

theorem gasTemp_decay_clamped:
  "(enabled s CoolingTick \<longrightarrow>
      gasTemp (step s CoolingTick) = max 100 (min 900 (gasTemp s - coolingPower s * 1.5 + 2)))
   \<and> 100 \<le> gasTemp ((coolingTick ^^ Suc n) s) \<and> gasTemp ((coolingTick ^^ Suc n) s) \<le> 900
   \<and> 100 \<le> gasTemp (run init evs) \<and> gasTemp (run init evs) \<le> 900"
proof -
  have tick: "enabled s CoolingTick \<longrightarrow>
      gasTemp (step s CoolingTick) = max 100 (min 900 (gasTemp s - coolingPower s * 1.5 + 2))"
    by (simp add: step_def)
  have "gasTemp ((coolingTick ^^ Suc n) s)
        = max 100 (min 900 (gasTemp ((coolingTick ^^ n) s) - coolingPower ((coolingTick ^^ n) s) * 1.5 + 2))"
    by simp
  then have many: "100 \<le> gasTemp ((coolingTick ^^ Suc n) s) \<and> gasTemp ((coolingTick ^^ Suc n) s) \<le> 900"
    by simp
  have "100 \<le> gasTemp init \<and> gasTemp init \<le> 900" by (simp add: init_def)
  then have "100 \<le> gasTemp (run init evs) \<and> gasTemp (run init evs) \<le> 900"
    by (rule gasTemp_run)
  with tick many show ?thesis by blast
qed

lemma cooling_fields:
  "stage cooling = 4" "coolingStarted cooling" "coolingTime cooling = 0"
  "gasTemp cooling = 600" "coolingPower cooling = 50" "plasticRatio cooling = 50"
  "condensedFuel cooling = 0"
  by (simp_all add: cooling_def init_def)

theorem gasTemp_decay_clamped_witness:
  "enabled cooling CoolingTick \<and> gasTemp (step cooling CoolingTick) = 527
   \<and> 100 \<le> gasTemp (run init [Begin]) \<and> gasTemp (run init [Begin]) \<le> 900"
proof -
  have en: "enabled cooling CoolingTick" by (simp add: cooling_fields)
  show ?thesis
    using en gasTemp_decay_clamped [of cooling 0 "[Begin]"] by (simp add: cooling_fields)
qed

section \<open>The condensed fuel\<close>

lemma baseLiquid_linear: "baseLiquid s = 0.25 + 0.004 * plasticRatio s"
  by (simp add: baseLiquid_def biomassRatio_def field_simps)

lemma condensedFuel_tick:
  "condensedFuel (coolingTick s)
     = min (condensedFuel s + baseLiquid s * max 0 (1 - \<bar>gasTemp s - 350\<bar> / 400) * 0.8)
           (baseLiquid s * 100)"
  by (simp add: coolingTick_def baseLiquid_def Let_def)

lemma fuelIncrement_nonneg:
  assumes "0 \<le> plasticRatio s"
  shows "0 \<le> baseLiquid s * max 0 (1 - \<bar>gasTemp s - 350\<bar> / 400) * 0.8"
proof -
  have "0 \<le> baseLiquid s" using assms by (simp add: baseLiquid_linear)
  moreover have "(0::real) \<le> max 0 (1 - \<bar>gasTemp s - 350\<bar> / 400)" by simp
  ultimately show ?thesis by simp
qed

lemma condensedFuel_tick_bounds:
  assumes "0 \<le> plasticRatio s" and "condensedFuel s \<le> baseLiquid s * 100"
  shows "condensedFuel s \<le> condensedFuel (coolingTick s)
         \<and> condensedFuel (coolingTick s) \<le> baseLiquid s * 100"
  using fuelIncrement_nonneg [OF assms(1)] assms(2)
  unfolding condensedFuel_tick by simp

lemma fuel_handlers [simp]:
  "condensedFuel (handlePlasticChange v s) = condensedFuel s"
  "condensedFuel (cellOrSame row col s) = condensedFuel s"
  "condensedFuel (generateQueue rolls s) = condensedFuel s"
  "condensedFuel (spawnTick x now s) = condensedFuel s"
  "condensedFuel (handleDrop b t i s) = condensedFuel s"
  "condensedFuel (resetGame s) = 0"
  "plasticRatio (cellOrSame row col s) = plasticRatio s"
  "plasticRatio (generateQueue rolls s) = plasticRatio s"
  "plasticRatio (spawnTick x now s) = plasticRatio s"
  "plasticRatio (handleDrop b t i s) = plasticRatio s"
  "plasticRatio (coolingTick s) = plasticRatio s"
  "plasticRatio (resetGame s) = 50"
  by (simp_all add: handler_defs)

lemma plasticRatio_range:
  "0 \<le> plasticRatio (handlePlasticChange v s) \<and> plasticRatio (handlePlasticChange v s) \<le> 100"
  by (simp add: handlePlasticChange_def Let_def)

lemma fuelInv_init: "fuelInv init"
  by (simp add: fuelInv_def baseLiquid_linear init_def)

lemma fuelInv_step: "fuelInv s \<Longrightarrow> fuelInv (step s e)"
proof (cases e)
  case (PlasticChange v)
  assume "fuelInv s"
  then show ?thesis
    using plasticRatio_range [of v s]
    by (simp add: PlasticChange step_def fuelInv_def baseLiquid_linear)
next
  case CoolingTick
  assume "fuelInv s"
  then show ?thesis
    using condensedFuel_tick_bounds [of s]
    by (auto simp: CoolingTick step_def fuelInv_def baseLiquid_linear)
qed (simp_all add: step_def fuelInv_def baseLiquid_linear)

lemma fuelInv_run: "fuelInv s \<Longrightarrow> fuelInv (run s evs)"
  by (induction evs arbitrary: s) (simp_all add: fuelInv_step)

text \<open>
  Claim C10. In every reachable state a tick of the cooling timer does not lower the
  condensed fuel and leaves it at most \<open>baseLiquid * 100\<close>. More generally, for a plastic
  ratio between 0 and 100 and a fuel level at most the cap, whatever the cooling power and
  the gas temperature are, the tick adds a non-negative increment, capped at
  \<open>baseLiquid * 100\<close>.
\<close>

theorem condensedFuel_monotone_bounded:
  "condensedFuel (run init evs) \<le> condensedFuel (coolingTick (run init evs))
   \<and> condensedFuel (coolingTick (run init evs)) \<le> baseLiquid (run init evs) * 100
   \<and> condensedFuel (run init evs) \<le> baseLiquid (run init evs) * 100
   \<and> (0 \<le> plasticRatio s \<and> plasticRatio s \<le> 100 \<and> condensedFuel s \<le> baseLiquid s * 100
        \<longrightarrow> 0 \<le> baseLiquid s * max 0 (1 - \<bar>gasTemp s - 350\<bar> / 400) * 0.8
          \<and> condensedFuel (coolingTick s)
              = min (condensedFuel s + baseLiquid s * max 0 (1 - \<bar>gasTemp s - 350\<bar> / 400) * 0.8)
                    (baseLiquid s * 100)
          \<and> condensedFuel s \<le> condensedFuel (coolingTick s)
          \<and> condensedFuel (coolingTick s) \<le> baseLiquid s * 100)"
proof -
  have inv: "fuelInv (run init evs)"
    using fuelInv_init by (rule fuelInv_run)
  then have p: "0 \<le> plasticRatio (run init evs)"
    and c: "condensedFuel (run init evs) \<le> baseLiquid (run init evs) * 100"
    by (simp_all add: fuelInv_def)
  note reach = condensedFuel_tick_bounds [OF p c]
  have tick: "0 \<le> plasticRatio s \<and> plasticRatio s \<le> 100 \<and> condensedFuel s \<le> baseLiquid s * 100
        \<longrightarrow> 0 \<le> baseLiquid s * max 0 (1 - \<bar>gasTemp s - 350\<bar> / 400) * 0.8
          \<and> condensedFuel (coolingTick s)
              = min (condensedFuel s + baseLiquid s * max 0 (1 - \<bar>gasTemp s - 350\<bar> / 400) * 0.8)
                    (baseLiquid s * 100)
          \<and> condensedFuel s \<le> condensedFuel (coolingTick s)
          \<and> condensedFuel (coolingTick s) \<le> baseLiquid s * 100"
    using fuelIncrement_nonneg [of s] condensedFuel_tick [of s] condensedFuel_tick_bounds [of s]
    by blast
  from reach c tick show ?thesis by blast
qed

theorem condensedFuel_monotone_bounded_witness:
  "0 \<le> plasticRatio cooling \<and> plasticRatio cooling \<le> 100
   \<and> condensedFuel cooling \<le> baseLiquid cooling * 100
   \<and> baseLiquid cooling * 100 = 45
   \<and> condensedFuel (coolingTick cooling) = 0.135
   \<and> condensedFuel cooling \<le> condensedFuel (coolingTick cooling)"
proof -
  have b: "baseLiquid cooling = 0.45"
    by (simp add: baseLiquid_linear cooling_fields)
  show ?thesis
    using condensedFuel_monotone_bounded [of "[]" cooling] b
    by (simp add: cooling_fields)
qed

section \<open>Counting in the sorting stage\<close>

lemma totalSorted_incBin:
  "totalSorted (s\<lparr>sortingProgress := incBin b (sortingProgress s)\<rparr>) = totalSorted s + 1"
  by (cases b) (simp_all add: totalSorted_def incBin_def)

lemma totalSorted_effect [simp]: "totalSorted (sortingCompletionEffect s) = totalSorted s"
  by (simp add: totalSorted_def)

lemma sorting_frame [simp]:
  "spawnedProducts (handlePlasticChange v s) = spawnedProducts s"
  "spawnedProducts (cellOrSame row col s) = spawnedProducts s"
  "spawnedProducts (generateQueue rolls s) = spawnedProducts s"
  "spawnedProducts (coolingTick s) = spawnedProducts s"
  "spawnIdRef (handlePlasticChange v s) = spawnIdRef s"
  "spawnIdRef (cellOrSame row col s) = spawnIdRef s"
  "spawnIdRef (generateQueue rolls s) = spawnIdRef s"
  "spawnIdRef (coolingTick s) = spawnIdRef s"
  "spawnIdRef (handleDrop b t i s) = spawnIdRef s"
  "totalSpawned (handlePlasticChange v s) = totalSpawned s"
  "totalSpawned (cellOrSame row col s) = totalSpawned s"
  "totalSpawned (generateQueue rolls s) = totalSpawned s"
  "totalSpawned (coolingTick s) = totalSpawned s"
  "totalSpawned (handleDrop b t i s) = totalSpawned s"
  "losses (handlePlasticChange v s) = losses s"
  "losses (cellOrSame row col s) = losses s"
  "losses (generateQueue rolls s) = losses s"
  "losses (coolingTick s) = losses s"
  "losses (spawnTick x now s) = losses s"
  "totalSorted (handlePlasticChange v s) = totalSorted s"
  "totalSorted (cellOrSame row col s) = totalSorted s"
  "totalSorted (generateQueue rolls s) = totalSorted s"
  "totalSorted (coolingTick s) = totalSorted s"
  "totalSorted (spawnTick x now s) = totalSorted s"
  "sortingComplete (handlePlasticChange v s) = sortingComplete s"
  "sortingComplete (cellOrSame row col s) = sortingComplete s"
  "sortingComplete (generateQueue rolls s) = sortingComplete s"
  "sortingComplete (coolingTick s) = sortingComplete s"
  "sortingComplete (spawnTick x now s) = sortingComplete s"
  "sortingComplete (handleDrop b t i s) = sortingComplete s"
  by (simp_all add: handler_defs totalSorted_def)

lemma totalSorted_update [simp]:
  "totalSorted (s\<lparr>stage := k\<rparr>) = totalSorted s"
  "totalSorted (s\<lparr>isDragging := d\<rparr>) = totalSorted s"
  "totalSorted (s\<lparr>coolingPower := v\<rparr>) = totalSorted s"
  "totalSorted (s\<lparr>coolingStarted := d\<rparr>) = totalSorted s"
  by (simp_all add: totalSorted_def)

lemma handleDrop_counts:
  "totalSorted (handleDrop b t i s) + losses (handleDrop b t i s) = totalSorted s + losses s + 1"
  by (cases b) (simp_all add: handleDrop_def Let_def totalSorted_def incBin_def)

lemma handleDrop_products:
  "spawnedProducts (handleDrop b t i s) = filter (\<lambda>p. pid p \<noteq> i) (spawnedProducts s)"
  by (simp add: handleDrop_def Let_def)

lemma remove_one:
  "distinct (map pid ps) \<Longrightarrow> i \<in> set (map pid ps)
   \<Longrightarrow> Suc (length (filter (\<lambda>p. pid p \<noteq> i) ps)) = length ps"
proof (induction ps)
  case Nil
  then show ?case by simp
next
  case (Cons p ps)
  show ?case
  proof (cases "pid p = i")
    case True
    from Cons.prems have "pid p \<notin> pid ` set ps" by simp
    with True have "\<forall>q \<in> set ps. pid q \<noteq> i" by (metis image_eqI)
    then have "filter (\<lambda>p. pid p \<noteq> i) ps = ps" by (simp add: filter_id_conv)
    with True show ?thesis by simp
  next
    case False
    with Cons show ?thesis by simp
  qed
qed

lemma sortInv_drop:
  assumes "sortInv s" and "i \<in> set (map pid (spawnedProducts s))"
  shows "sortInv (handleDrop b t i s)"
proof -
  from assms(1) have d: "distinct (map pid (spawnedProducts s))"
    and l: "list_all (\<lambda>p. pid p < spawnIdRef s) (spawnedProducts s)"
    and c: "totalSorted s + losses s + length (spawnedProducts s) = totalSpawned s"
    and t: "totalSpawned s \<le> 15"
    by (simp_all add: sortInv_def)
  have "Suc (length (filter (\<lambda>p. pid p \<noteq> i) (spawnedProducts s))) = length (spawnedProducts s)"
    using d assms(2) by (rule remove_one)
  then have "totalSorted (handleDrop b t i s) + losses (handleDrop b t i s)
        + length (spawnedProducts (handleDrop b t i s)) = totalSpawned s"
    using c by (simp add: handleDrop_counts handleDrop_products)
  moreover have "distinct (map pid (spawnedProducts (handleDrop b t i s)))"
    using d by (simp add: handleDrop_products distinct_map_filter)
  moreover have "list_all (\<lambda>p. pid p < spawnIdRef s) (spawnedProducts (handleDrop b t i s))"
    using l by (simp add: handleDrop_products list_all_iff)
  ultimately show ?thesis using t by (simp add: sortInv_def)
qed

lemma sortInv_spawn: "sortInv s \<Longrightarrow> sortInv (spawnTick x now s)"
  by (auto simp: sortInv_def spawnTick_def Let_def list_all_iff totalSorted_def)

lemma sortInv_effect [simp]: "sortInv (sortingCompletionEffect s) = sortInv s"
  by (simp add: sortInv_def)

lemma sortInv_reset: "sortInv (resetGame s)"
  by (simp add: sortInv_def resetGame_def totalSorted_def)

lemma sortInv_step:
  assumes "sortInv s" and "dropOnScreen s e"
  shows "sortInv (step s e)"
proof (cases e)
  case (Drop b t i)
  with assms show ?thesis
    by (simp add: step_def dropOnScreen_def sortInv_drop)
next
  case (SpawnTick x now)
  with assms(1) show ?thesis by (simp add: step_def sortInv_spawn)
next
  case Reset
  with assms(1) show ?thesis by (simp add: step_def sortInv_reset)
qed (use assms(1) in \<open>simp_all add: step_def sortInv_def\<close>)

lemma sortInv_run: "sortInv s \<Longrightarrow> dropsValid s evs \<Longrightarrow> sortInv (run s evs)"
proof (induction evs arbitrary: s)
  case Nil
  then show ?case by simp
next
  case (Cons e evs)
  from Cons.prems have "sortInv (step s e)" "dropsValid (step s e) evs"
    by (simp_all add: sortInv_step)
  then show ?case using Cons.IH by simp
qed

lemma sortingComplete_effect:
  "sortingComplete (sortingCompletionEffect s)
     \<longleftrightarrow> sortingComplete s \<or> (15 \<le> totalSorted s + losses s \<and> 15 \<le> totalSpawned s)"
  by (auto simp: sortingCompletionEffect_def)

lemma spawnTick_total: "totalSpawned s \<le> totalSpawned (spawnTick x now s)"
  by (simp add: spawnTick_def Let_def)

lemma complInv_step:
  assumes "complInv s"
  shows "complInv (step s e)"
proof (cases e)
  case (Drop b t i)
  with assms show ?thesis
    using handleDrop_counts [of b t i s]
    by (auto simp: step_def complInv_def sortingComplete_effect)
next
  case (SpawnTick x now)
  with assms show ?thesis
    using spawnTick_total [of s x now]
    by (auto simp: step_def complInv_def sortingComplete_effect)
next
  case Reset
  with assms show ?thesis
    by (simp add: step_def complInv_def sortingComplete_effect resetGame_def totalSorted_def)
qed (use assms in \<open>auto simp: step_def complInv_def sortingComplete_effect\<close>)

lemma complInv_run: "complInv s \<Longrightarrow> complInv (run s evs)"
  by (induction evs arbitrary: s) (simp_all add: complInv_step)

lemma sortInv_init: "sortInv init"
  by (simp add: sortInv_def init_def totalSorted_def)

lemma complInv_init: "complInv init"
  by (simp add: complInv_def init_def totalSorted_def)

lemma queueInv_step: "queueInv s \<Longrightarrow> queueInv (step s e)"
  by (cases e) (auto simp: step_def queueInv_def sortingCompletionEffect_def handler_defs)

lemma productQueue_length:
  "productQueue (run init evs) = [] \<or> length (productQueue (run init evs)) = 15"
proof -
  have "queueInv s \<Longrightarrow> queueInv (run s evs)" for s
    by (induction evs arbitrary: s) (simp_all add: queueInv_step)
  moreover have "queueInv init" by (simp add: queueInv_def init_def)
  ultimately show ?thesis by (simp add: queueInv_def)
qed

text \<open>
  Claim C9. Along a trace from the initial state in which every call of \<open>handleDrop\<close>
  names a product that is on screen (so that no product is dropped twice), the sorted
  products plus the losses never exceed the spawned products, which never exceed 15; the
  completion flag holds exactly when the sorted total plus the losses and the spawned
  total have both reached 15, and the completion effect sets it under exactly that test.
\<close>

theorem sorting_counts:
  assumes "dropsValid init evs"
  shows "totalSorted (run init evs) + losses (run init evs) \<le> totalSpawned (run init evs)
       \<and> totalSpawned (run init evs) \<le> 15
       \<and> (sortingComplete (run init evs) \<longleftrightarrow>
            15 \<le> totalSorted (run init evs) + losses (run init evs)
            \<and> 15 \<le> totalSpawned (run init evs))
       \<and> (sortingComplete (sortingCompletionEffect s) \<longleftrightarrow>
            sortingComplete s \<or> (15 \<le> totalSorted s + losses s \<and> 15 \<le> totalSpawned s))"
proof -
  have "sortInv (run init evs)"
    using sortInv_init assms by (rule sortInv_run)
  then have counts: "totalSorted (run init evs) + losses (run init evs) \<le> totalSpawned (run init evs)
       \<and> totalSpawned (run init evs) \<le> 15"
    by (simp add: sortInv_def)
  have "complInv (run init evs)"
    using complInv_init by (rule complInv_run)
  then have flag: "sortingComplete (run init evs) \<longleftrightarrow>
            15 \<le> totalSorted (run init evs) + losses (run init evs)
            \<and> 15 \<le> totalSpawned (run init evs)"
    by (simp add: complInv_def)
  from counts flag sortingComplete_effect [of s] show ?thesis by blast
qed

section \<open>A run into the sorting stage\<close>

lemma run_append: "run s (xs @ ys) = run (run s xs) ys"
  by (induction xs arbitrary: s) simp_all

lemma effect_quiet: "totalSpawned s < 15 \<Longrightarrow> sortingCompletionEffect s = s"
  by (simp add: sortingCompletionEffect_def)

lemma step_touch:
  assumes "stage s = 2" and "r < length (heatGrid s)" and "c < length (heatGrid s ! r)"
    and "totalSpawned s < 15"
  shows "step s (TouchCell r c)
         = s\<lparr>heatGrid := (heatGrid s)[r := (heatGrid s ! r)[c := min 100 (heatGrid s ! r ! c + 50)]]\<rparr>"
  using assms
  by (simp add: step_def cellRendered_def cellOrSame_def handleCellInteraction_def effect_quiet)

lemma run_touchRow:
  assumes "stage s = 2" and "r < length (heatGrid s)"
    and "heatGrid s ! r = coldRow" and "totalSpawned s < 15"
  shows "run s (touchRow r) = s\<lparr>heatGrid := (heatGrid s)[r := hotRow]\<rparr>"
  using assms by (simp add: touchRow_def step_touch coldRow_def hotRow_def)

lemma emptyGrid_rows:
  "emptyGrid = [coldRow, coldRow, coldRow, coldRow, coldRow, coldRow, coldRow, coldRow, coldRow, coldRow]"
  by (simp add: emptyGrid_def coldRow_def eval_nat_numeral)

lemma run_heatingTrace: "run init heatingTrace = heated"
  by (simp add: heatingTrace_def run_append run_touchRow step_def effect_quiet
      init_def emptyGrid_rows heated_def)

lemma heated_completeness: "completeness (calculateHeatMetrics heated) = 75"
  by (simp add: calculateHeatMetrics_def heated_def hotRow_def coldRow_def Let_def)

lemma noDrop_valid:
  "list_all (\<lambda>e. case e of Drop b t i \<Rightarrow> False | _ \<Rightarrow> True) evs \<Longrightarrow> dropsValid s evs"
proof (induction evs arbitrary: s)
  case Nil
  then show ?case by simp
next
  case (Cons e evs)
  then show ?case by (cases e) (simp_all add: dropOnScreen_def)
qed

lemma dropsValid_append:
  "dropsValid s (xs @ ys) \<longleftrightarrow> dropsValid s xs \<and> dropsValid (run s xs) ys"
  by (induction xs arbitrary: s) auto

lemma heatingTrace_valid: "dropsValid init heatingTrace"
  by (rule noDrop_valid) (simp add: heatingTrace_def touchRow_def)

lemma heated_fields:
  "stage heated = 2" "plasticRatio heated = 50" "productQueue heated = []"
  "totalSpawned heated = 0" "sortingComplete heated = False" "spawnIdRef heated = 0"
  "spawnedProducts heated = []" "losses heated = 0" "totalSorted heated = 0"
  by (simp_all add: heated_def init_def totalSorted_def)

lemma halfRolls_ok: "length halfRolls = 15" "list_all (\<lambda>r. 0 \<le> r \<and> r < 1) halfRolls"
  by (simp_all add: halfRolls_def list_all_iff)

lemma classify_half:
  assumes "plasticRatio s = 50"
  shows "classify (oilProb (getProductProbabilities s)) (gasProb (getProductProbabilities s)) (1 / 2)
         = Syngas"
proof -
  let ?oil = "oilProb (getProductProbabilities s)"
  let ?gas = "gasProb (getProductProbabilities s)"
  have h: "0 \<le> plasticRatio s" "plasticRatio s \<le> 100"
    using assms by simp_all
  note lin = shares_close [OF h, unfolded exact_shares]
  have oil: "\<not> 1 / 2 < ?oil"
    using lin(1) assms u52_bounds by linarith
  have "\<bar>?oil + ?gas\<bar> \<le> 2"
    using lin(1,2) assms u52_bounds by linarith
  then have "\<bar>fl (?oil + ?gas) - (?oil + ?gas)\<bar> \<le> u52" by (rule fl_close)
  then have sum: "1 / 2 < fl (?oil + ?gas)"
    using lin(1,2) assms u52_bounds by linarith
  show ?thesis unfolding classify_def using oil sum by (simp only: if_False if_True)
qed

lemma queue_half:
  "generateQueue halfRolls (heated\<lparr>stage := 3\<rparr>)
     = heated\<lparr>stage := 3, productQueue := replicate 15 Syngas\<rparr>"
  by (simp add: generateQueue_def classify_half heated_fields halfRolls_def Let_def)

lemma run_to_spawn:
  "run heated [ToSorting, GenerateQueue halfRolls, SpawnTick 10 0] = sortingOne"
proof -
  have a: "step heated ToSorting = heated\<lparr>stage := 3\<rparr>"
    by (simp add: step_def heated_completeness heated_fields effect_quiet)
  have b: "step (heated\<lparr>stage := 3\<rparr>) (GenerateQueue halfRolls)
           = heated\<lparr>stage := 3, productQueue := replicate 15 Syngas\<rparr>"
    by (simp add: step_def heated_fields halfRolls_ok queue_half effect_quiet)
  have c: "step (heated\<lparr>stage := 3, productQueue := replicate 15 Syngas\<rparr>) (SpawnTick 10 0)
           = sortingOne"
    by (simp add: step_def heated_fields spawnTick_def effect_quiet sortingOne_def)
  show ?thesis by (simp only: run.simps a b c)
qed

lemma sortingOne_fields:
  "stage sortingOne = 3"
  "spawnedProducts sortingOne = [\<lparr> pid = 0, ptype = Syngas, xpos = 10, spawnTime = 0 \<rparr>]"
  "totalSpawned sortingOne = 1" "losses sortingOne = 0"
  "sortingProgress sortingOne = \<lparr> biochar = 0, syngas = 0, liquidFuel = 0 \<rparr>"
  "sortingComplete sortingOne = False"
  by (simp_all add: sortingOne_def heated_def init_def)

lemma run_sortingTrace:
  "run init sortingTrace = step sortingOne (Drop Syngas Syngas 0)"
proof -
  have "run init sortingTrace
        = run heated ([ToSorting, GenerateQueue halfRolls, SpawnTick 10 0] @ [Drop Syngas Syngas 0])"
    by (simp add: sortingTrace_def run_append run_heatingTrace)
  also have "\<dots> = run sortingOne [Drop Syngas Syngas 0]"
    by (simp only: run_append run_to_spawn)
  finally show ?thesis by simp
qed

lemma sortingTrace_valid: "dropsValid init sortingTrace"
proof -
  have "dropsValid heated [ToSorting, GenerateQueue halfRolls, SpawnTick 10 0]"
    by (rule noDrop_valid) simp
  moreover have "dropsValid sortingOne [Drop Syngas Syngas 0]"
    by (simp add: dropOnScreen_def sortingOne_fields)
  ultimately have "dropsValid heated
      ([ToSorting, GenerateQueue halfRolls, SpawnTick 10 0] @ [Drop Syngas Syngas 0])"
    unfolding dropsValid_append run_to_spawn by simp
  then show ?thesis
    unfolding sortingTrace_def dropsValid_append run_heatingTrace
    using heatingTrace_valid by simp
qed

lemma sortingTrace_result:
  "totalSorted (run init sortingTrace) = 1" "losses (run init sortingTrace) = 0"
  "totalSpawned (run init sortingTrace) = 1" "spawnedProducts (run init sortingTrace) = []"
  by (simp_all add: run_sortingTrace step_def sortingOne_fields handleDrop_def incBin_def
      totalSorted_def sortingCompletionEffect_def)

theorem sorting_counts_witness:
  "dropsValid init sortingTrace
   \<and> totalSorted (run init sortingTrace) = 1 \<and> losses (run init sortingTrace) = 0
   \<and> totalSpawned (run init sortingTrace) = 1
   \<and> \<not> sortingComplete (run init sortingTrace)"
  using sorting_counts [OF sortingTrace_valid, of init] sortingTrace_valid sortingTrace_result
  by simp

section \<open>The heat metrics as statistics\<close>














end
